theory Spec2Isabelle
  imports Main
begin

text \<open>
  A model of the transcription front-end: the classification of the input by its
  extension, the worker thread with its stages (audio extraction, model loading,
  transcription, writing of the segments), the controller operations of the
  interface, and the queue between the two threads. Calls into libraries and reads
  of the stop flag, which the other thread writes, take their outcome from a record
  describing the outside world during one job; every \<open>raise\<close> and \<open>return\<close> of the
  source is a branch of the model. Exceptions that are not of class \<open>Exception\<close>
  are outside the model.
\<close>

section \<open>Strings and paths\<close>

text \<open>
  A Python string is modelled by its UTF-8 encoding, a \<^typ>\<open>string\<close>: a character of
  the ASCII range is one element, any other code point a sequence of elements from
  \<open>0x80\<close> upwards. Searching for an ASCII character and cutting at the position
  found give the encoding of what Python computes on the code points.
\<close>

definition ascii_uppercase :: string where
  "ascii_uppercase = ''ABCDEFGHIJKLMNOPQRSTUVWXYZ''"

definition ascii_lowercase :: string where
  "ascii_lowercase = ''abcdefghijklmnopqrstuvwxyz''"

definition lower_char :: "char \<Rightarrow> char" where
  "lower_char c =
     (case map_of (zip ascii_uppercase ascii_lowercase) c of
        Some l \<Rightarrow> l
      | None \<Rightarrow> c)"

text \<open>
  \<open>str.lower\<close>. It maps the ASCII capitals to small letters. Outside ASCII, the
  Unicode case mapping sends exactly one code point to an ASCII character, the
  Kelvin sign \<open>U+212A\<close> (encoded \<open>E2 84 AA\<close>) to \<open>k\<close>, and exactly one to more than
  one code point, \<open>U+0130\<close> (encoded \<open>C4 B0\<close>) to \<open>i\<close> followed by \<open>U+0307\<close>
  (encoded \<open>CC 87\<close>). Every other code point outside ASCII has a lower case outside
  ASCII; the model leaves its encoding as it is, so that the result agrees with
  Python's on every ASCII character and on the positions of the others.
\<close>

fun lower :: "string \<Rightarrow> string" where
  "lower [] = []"
| "lower (c # rest) =
     (if c = CHR 0xE2 \<and> take 2 rest = [CHR 0x84, CHR 0xAA]
      then CHR ''k'' # lower (drop 2 rest)
      else if c = CHR 0xC4 \<and> take 1 rest = [CHR 0xB0]
      then CHR ''i'' # CHR 0xCC # CHR 0x87 # lower (drop 1 rest)
      else lower_char c # lower rest)"

declare lower.simps [simp del]

definition whitespace :: string where
  "whitespace =
     [CHR 0x09, CHR 0x0A, CHR 0x0B, CHR 0x0C, CHR 0x0D,
      CHR 0x1C, CHR 0x1D, CHR 0x1E, CHR 0x1F, CHR 0x20]"

definition is_space :: "char \<Rightarrow> bool" where
  "is_space c = (c \<in> set whitespace)"

definition strip :: "string \<Rightarrow> string" where
  "strip s = rev (dropWhile is_space (rev (dropWhile is_space s)))"

definition apostrophe :: char where
  "apostrophe = CHR 0x27"

definition newline :: char where
  "newline = CHR 0x0A"

definition quoted :: "string \<Rightarrow> string" where
  "quoted s = apostrophe # s @ [apostrophe]"

fun show_nat :: "nat \<Rightarrow> string" where
  "show_nat n =
     (if n < 10 then [''0123456789'' ! n]
      else show_nat (n div 10) @ [''0123456789'' ! (n mod 10)])"

declare show_nat.simps [simp del]

text \<open>
  \<open>str.rfind\<close> for a one-character needle: the highest index holding the character,
  or \<open>-1\<close>.
\<close>

definition rfind :: "char \<Rightarrow> string \<Rightarrow> int" where
  "rfind c p =
     (if c \<in> set p
      then int (length p) - 1 - int (length (takeWhile (\<lambda>x. x \<noteq> c) (rev p)))
      else - 1)"

text \<open>
  The flavour of \<open>os.path\<close>: \<open>posixpath\<close> has separator \<open>/\<close> and no alternative
  separator, \<open>ntpath\<close> has separator backslash and alternative separator \<open>/\<close>.
\<close>

datatype platform = Posix | Windows

definition backslash :: char where
  "backslash = CHR 0x5C"

fun sep :: "platform \<Rightarrow> char" where
  "sep Posix = CHR ''/''"
| "sep Windows = backslash"

fun altsep :: "platform \<Rightarrow> char option" where
  "altsep Posix = None"
| "altsep Windows = Some (CHR ''/'')"

definition extsep :: char where
  "extsep = CHR ''.''"

text \<open>
  The loop of \<open>genericpath._splitext\<close> that skips the leading dots of the last
  component: it returns the split at \<open>dotIndex\<close> as soon as it meets a character
  other than the extension separator, and the whole path with an empty extension
  when it reaches \<open>dotIndex\<close>.
\<close>

function skip_leading_dots :: "string \<Rightarrow> nat \<Rightarrow> nat \<Rightarrow> string \<times> string" where
  "skip_leading_dots p filenameIndex dotIndex =
     (if filenameIndex < dotIndex
      then (if p ! filenameIndex \<noteq> extsep
            then (take dotIndex p, drop dotIndex p)
            else skip_leading_dots p (Suc filenameIndex) dotIndex)
      else (p, []))"
  by pat_completeness auto
termination
  by (relation "measure (\<lambda>(p, i, d). d - i)") auto

declare skip_leading_dots.simps [simp del]

definition splitext :: "platform \<Rightarrow> string \<Rightarrow> string \<times> string" where
  "splitext pf p =
     (let sepIndex0 = rfind (sep pf) p;
          sepIndex = (case altsep pf of
                        None \<Rightarrow> sepIndex0
                      | Some a \<Rightarrow> max sepIndex0 (rfind a p));
          dotIndex = rfind extsep p
      in if dotIndex > sepIndex
         then skip_leading_dots p (nat (sepIndex + 1)) (nat dotIndex)
         else (p, []))"

text \<open>
  \<open>os.path.basename\<close>: the part after the last separator. For \<open>ntpath\<close> a drive
  prefix that is not followed by a separator is not split off; the base name is used
  in log texts only.
\<close>

definition is_sep :: "platform \<Rightarrow> char \<Rightarrow> bool" where
  "is_sep pf c = (c = sep pf \<or> altsep pf = Some c)"

definition basename :: "platform \<Rightarrow> string \<Rightarrow> string" where
  "basename pf p = rev (takeWhile (\<lambda>c. \<not> is_sep pf c) (rev p))"

section \<open>Media classification\<close>

definition video_extensions :: "string list" where
  "video_extensions =
     [''.mp4'', ''.avi'', ''.mkv'', ''.mov'', ''.wmv'', ''.flv'', ''.webm'', ''.m4v'']"

definition is_video_file :: "platform \<Rightarrow> string \<Rightarrow> bool" where
  "is_video_file pf file_path =
     (let file_ext = lower (snd (splitext pf file_path))
      in file_ext \<in> set video_extensions)"

text \<open>
  The specification's list of video extensions, written without the dot, and the
  test that a file name consists of dots only.
\<close>

definition video_names :: "string list" where
  "video_names = [''mp4'', ''avi'', ''mkv'', ''mov'', ''wmv'', ''flv'', ''webm'', ''m4v'']"

definition all_dots :: "string \<Rightarrow> bool" where
  "all_dots s = list_all (\<lambda>c. c = extsep) s"

section \<open>Model tables\<close>

definition AVAILABLE_MODELS :: "(string \<times> string) list" where
  "AVAILABLE_MODELS =
     [(''tiny'', ''./models/models--Systran--faster-whisper-tiny''),
      (''tiny.en'', ''./models/models--Systran--faster-whisper-tiny.en''),
      (''base'', ''./models/models--Systran--faster-whisper-base''),
      (''base.en'', ''./models/models--Systran--faster-whisper-base.en''),
      (''small'', ''./models/models--Systran--faster-whisper-small''),
      (''small.en'', ''./models/models--Systran--faster-whisper-small.en''),
      (''medium'', ''./models/models--Systran--faster-whisper-medium''),
      (''medium.en'', ''./models/models--Systran--faster-whisper-medium.en''),
      (''large-v1'', ''./models/models--Systran--faster-whisper-large-v1''),
      (''large-v2'', ''./models/models--Systran--faster-whisper-large-v2''),
      (''large-v3'', ''./models/models--Systran--faster-whisper-large-v3''),
      (''large'', ''./models/models--Systran--faster-whisper-large'')]"

definition HF_MODEL_MAPPING :: "(string \<times> string) list" where
  "HF_MODEL_MAPPING =
     [(''tiny'', ''Systran/faster-whisper-tiny''),
      (''tiny.en'', ''Systran/faster-whisper-tiny.en''),
      (''base'', ''Systran/faster-whisper-base''),
      (''base.en'', ''Systran/faster-whisper-base.en''),
      (''small'', ''Systran/faster-whisper-small''),
      (''small.en'', ''Systran/faster-whisper-small.en''),
      (''medium'', ''Systran/faster-whisper-medium''),
      (''medium.en'', ''Systran/faster-whisper-medium.en''),
      (''large-v1'', ''Systran/faster-whisper-large-v1''),
      (''large-v2'', ''Systran/faster-whisper-large-v2''),
      (''large-v3'', ''Systran/faster-whisper-large-v3''),
      (''large'', ''Systran/faster-whisper-large'')]"

section \<open>Events, exceptions and the outside world\<close>

text \<open>
  An element of the result queue is the pair the worker puts: a message type and an
  optional text.
\<close>

type_synonym event = "string \<times> string option"

text \<open>
  Exceptions of class \<open>Exception\<close>. The two classes that \<open>transcription_worker\<close>
  names in a handler are kept apart; every other class is \<open>OtherError\<close>. The string
  is what \<open>str(e)\<close> returns.
\<close>

datatype exn = KeyError string | HFValidationError string | OtherError string

fun str_exn :: "exn \<Rightarrow> string" where
  "str_exn (KeyError m) = m"
| "str_exn (HFValidationError m) = m"
| "str_exn (OtherError m) = m"

text \<open>
  How a block of statements ends: it falls through with a value, it executes
  \<open>return\<close>, or it raises.
\<close>

datatype 'a ctl = Next 'a | Return | Raise exn

text \<open>
  The lazy segment sequence returned by \<open>model.transcribe\<close>: each \<open>next()\<close> either
  yields a segment, of which only the text is used, or raises.
\<close>

datatype segment_item = Yield string | Fail exn

text \<open>
  The transcription summary. The two floating-point fields are carried as the text
  their \<open>:.2f\<close> format produces.
\<close>

record info =
  info_language :: string
  info_language_probability :: string
  info_duration :: string

record app_state =
  audio_file :: string
  output_file :: string
  language :: string
  model_size :: string

text \<open>Invocations of the external collaborators, in the order they are made.\<close>

datatype call =
    CallVideoFileClip string
  | CallWriteAudiofile string
  | CallUnlink string
  | CallWhisperModel string
  | CallDownloadModel string string string
  | CallTranscribe string string "string option"
  | CallOpenWrite string

text \<open>
  Everything the worker does not decide itself, for one job: the value each read of
  the stop flag returns (the flag is written by the interactive thread), and the
  outcome of each call into \<open>tempfile\<close>, \<open>moviepy\<close>, \<open>os\<close>, \<open>faster_whisper\<close> and
  the file object.
\<close>

record world =
  os_path :: platform
  stop_flag_is_set :: "nat \<Rightarrow> bool"
  named_temporary_file :: "exn + string"
  video_file_clip :: "string \<Rightarrow> exn + bool"
  write_audiofile :: "string \<Rightarrow> exn + string"
  video_close :: "exn option"
  os_unlink :: "string \<Rightarrow> exn option"
  whisper_model :: "nat \<Rightarrow> string \<Rightarrow> exn option"
  download_model :: "string \<Rightarrow> string \<Rightarrow> string \<Rightarrow> exn option"
  transcribe :: "string \<Rightarrow> string \<Rightarrow> string option \<Rightarrow> exn + (segment_item list \<times> info)"
  open_output :: "string \<Rightarrow> exn option"
  file_write :: "nat \<Rightarrow> exn option"
  file_close :: "exn option"

text \<open>
  The state the worker changes: the events put on the result queue so far, the files
  on disk (path to content), the local variable \<open>temp_audio_path\<close>, and counters
  of the flag reads and model constructions made, which index the outcomes in the
  world.
\<close>

record wstate =
  result_queue :: "event list"
  fs :: "string \<Rightarrow> string option"
  temp_audio_path :: "string option"
  flag_reads :: nat
  model_loads :: nat
  calls :: "call list"

definition put :: "event \<Rightarrow> wstate \<Rightarrow> wstate" where
  "put ev st = st\<lparr>result_queue := result_queue st @ [ev]\<rparr>"

definition called :: "call \<Rightarrow> wstate \<Rightarrow> wstate" where
  "called c st = st\<lparr>calls := calls st @ [c]\<rparr>"

definition is_set :: "world \<Rightarrow> wstate \<Rightarrow> bool \<times> wstate" where
  "is_set w st =
     (stop_flag_is_set w (flag_reads st), st\<lparr>flag_reads := Suc (flag_reads st)\<rparr>)"

definition and_then ::
  "'a ctl \<times> wstate \<Rightarrow> ('a \<Rightarrow> wstate \<Rightarrow> 'b ctl \<times> wstate) \<Rightarrow> 'b ctl \<times> wstate" where
  "and_then m f =
     (case m of
        (Next x, st) \<Rightarrow> f x st
      | (Return, st) \<Rightarrow> (Return, st)
      | (Raise e, st) \<Rightarrow> (Raise e, st))"

text \<open>\<open>if self.stop_flag.is_set(): return\<close>\<close>

definition check_stop :: "world \<Rightarrow> wstate \<Rightarrow> unit ctl \<times> wstate" where
  "check_stop w st =
     (let (stop, st1) = is_set w st
      in (if stop then Return else Next (), st1))"

text \<open>A dictionary subscript: \<open>KeyError\<close> on a missing key.\<close>

definition subscript :: "(string \<times> string) list \<Rightarrow> string \<Rightarrow> wstate \<Rightarrow> string ctl \<times> wstate" where
  "subscript d k st =
     (case map_of d k of
        None \<Rightarrow> (Raise (KeyError (quoted k)), st)
      | Some v \<Rightarrow> (Next v, st))"

section \<open>Audio extraction\<close>

text \<open>The \<open>try\<close> body of \<open>extract_audio_from_video\<close>.\<close>

definition demux :: "world \<Rightarrow> string \<Rightarrow> string \<Rightarrow> wstate \<Rightarrow> exn option \<times> wstate" where
  "demux w video_path temp_path st =
     (let st1 = called (CallVideoFileClip video_path) st
      in case video_file_clip w video_path of
           Inl e \<Rightarrow> (Some e, st1)
         | Inr has_audio \<Rightarrow>
             if \<not> has_audio
             then (Some (OtherError ''Video file does not contain an audio track''), st1)
             else
               (let st2 = called (CallWriteAudiofile temp_path) st1
                in case write_audiofile w video_path of
                     Inl e \<Rightarrow> (Some e, st2)
                   | Inr wav \<Rightarrow>
                       (let st3 = st2\<lparr>fs := (fs st2)(temp_path \<mapsto> wav)\<rparr>
                        in case video_close w of
                             Some e \<Rightarrow> (Some e, st3)
                           | None \<Rightarrow> (None, st3))))"

definition extract_audio_from_video :: "world \<Rightarrow> string \<Rightarrow> wstate \<Rightarrow> string ctl \<times> wstate" where
  "extract_audio_from_video w video_path st0 =
     (let st1 = put (''status'', Some ''Extracting audio from video...'') st0;
          st2 = put (''log'', Some (''Extracting audio from video: ''
                                      @ basename (os_path w) video_path)) st1
      in case named_temporary_file w of
           Inl e \<Rightarrow> (Raise e, st2)
         | Inr temp_path \<Rightarrow>
             (let st3 = st2\<lparr>fs := (fs st2)(temp_path \<mapsto> [])\<rparr>
              in case demux w video_path temp_path st3 of
                   (None, st4) \<Rightarrow>
                     (Next temp_path, put (''log'', Some ''Audio extracted successfully'') st4)
                 | (Some e, st4) \<Rightarrow>
                     (let failure = OtherError (''Failed to extract audio from video: '' @ str_exn e)
                      in if fs st4 temp_path \<noteq> None
                         then
                           (let st5 = called (CallUnlink temp_path) st4
                            in case os_unlink w temp_path of
                                 Some e' \<Rightarrow> (Raise e', st5)
                               | None \<Rightarrow>
                                   (Raise failure, st5\<lparr>fs := (fs st5)(temp_path := None)\<rparr>))
                         else (Raise failure, st4))))"

section \<open>The worker\<close>

text \<open>Lines 196 to 203: the audio path is the extracted file for a video input.\<close>

definition select_audio :: "world \<Rightarrow> string \<Rightarrow> wstate \<Rightarrow> string ctl \<times> wstate" where
  "select_audio w input_path st =
     (if is_video_file (os_path w) input_path
      then and_then (check_stop w st) (\<lambda>_ st1.
             and_then (extract_audio_from_video w input_path st1) (\<lambda>temp_path st2.
               (Next temp_path, st2\<lparr>temp_audio_path := Some temp_path\<rparr>)))
      else (Next input_path, st))"

text \<open>
  \<open>WhisperModel(model_path, ...)\<close>. The loaded model is represented by the path it was
  loaded from.
\<close>

definition construct_model :: "world \<Rightarrow> string \<Rightarrow> wstate \<Rightarrow> string ctl \<times> wstate" where
  "construct_model w model_path st =
     (let st1 = called (CallWhisperModel model_path) (st\<lparr>model_loads := Suc (model_loads st)\<rparr>)
      in case whisper_model w (model_loads st) model_path of
           Some e \<Rightarrow> (Raise e, st1)
         | None \<Rightarrow> (Next model_path, st1))"

text \<open>
  Modelled from the spec: \<open>download_model\<close>, which \<open>main.py\<close> imports from
  \<open>download_models\<close> and calls with \<open>model_name\<close>, \<open>repo_id\<close> and \<open>local_path\<close>, is
  not defined in the sources (\<open>download_models.py\<close> defines \<open>download_models\<close>, which
  fetches every model of the table). The specification describes the acquisition as
  a blocking fetch into the given local path with two observable outcomes, success
  or an exception; the field \<open>download_model\<close> of the world is that outcome.
\<close>

definition call_download_model ::
  "world \<Rightarrow> string \<Rightarrow> string \<Rightarrow> string \<Rightarrow> wstate \<Rightarrow> unit ctl \<times> wstate" where
  "call_download_model w model_name repo_id local_path st =
     (let st1 = called (CallDownloadModel model_name repo_id local_path) st
      in case download_model w model_name repo_id local_path of
           Some e \<Rightarrow> (Raise e, st1)
         | None \<Rightarrow> (Next (), st1))"

text \<open>Lines 211 to 226: the \<open>try\<close> with its two handlers.\<close>

definition load_model :: "world \<Rightarrow> string \<Rightarrow> wstate \<Rightarrow> string ctl \<times> wstate" where
  "load_model w name st =
     (case and_then (subscript AVAILABLE_MODELS name st) (construct_model w) of
        (Raise (KeyError _), st1) \<Rightarrow>
          (let st2 = put (''log'', Some (''Model '' @ quoted name @ '' not found, using ''
                                           @ quoted ''base'')) st1
           in and_then (subscript AVAILABLE_MODELS ''base'' st2) (construct_model w))
      | (Raise (HFValidationError _), st1) \<Rightarrow>
          (let st2 = put (''log'', Some (''Model '' @ quoted name
                                           @ '' not found, downloading...'')) st1
           in and_then (subscript AVAILABLE_MODELS name st2) (\<lambda>model_path st3.
              and_then (subscript HF_MODEL_MAPPING name st3) (\<lambda>repo_id st4.
                and_then (call_download_model w name repo_id model_path st4) (\<lambda>_ st5.
                  construct_model w model_path
                    (put (''log'', Some (''Model '' @ quoted name
                                           @ '' downloaded successfully'')) st5)))))
      | r \<Rightarrow> r)"

definition call_transcribe ::
  "world \<Rightarrow> string \<Rightarrow> string \<Rightarrow> string option \<Rightarrow> wstate
     \<Rightarrow> (segment_item list \<times> info) ctl \<times> wstate" where
  "call_transcribe w model audio_path lang st =
     (let st1 = called (CallTranscribe model audio_path lang) st
      in case transcribe w model audio_path lang of
           Inl e \<Rightarrow> (Raise e, st1)
         | Inr r \<Rightarrow> (Next r, st1))"

definition append_file ::
  "string \<Rightarrow> string \<Rightarrow> (string \<Rightarrow> string option) \<Rightarrow> (string \<Rightarrow> string option)" where
  "append_file path text files =
     files(path \<mapsto> (case files path of None \<Rightarrow> text | Some content \<Rightarrow> content @ text))"

text \<open>
  Lines 247 to 257. The \<open>for\<close> statement takes the next item of the lazy sequence
  first; the flag is read in the loop body, and the \<open>n\<close>-th write appends the
  stripped text and a newline.
\<close>

fun segment_loop ::
  "world \<Rightarrow> segment_item list \<Rightarrow> string \<Rightarrow> nat \<Rightarrow> wstate \<Rightarrow> nat ctl \<times> wstate" where
  "segment_loop w [] output_path processed_segments st = (Next processed_segments, st)"
| "segment_loop w (Fail e # rest) output_path processed_segments st = (Raise e, st)"
| "segment_loop w (Yield text # rest) output_path processed_segments st =
     (let (stop, st1) = is_set w st
      in if stop
         then (Next processed_segments,
               put (''log'', Some ''Transcription stopped by user'') st1)
         else
           (case file_write w processed_segments of
              Some e \<Rightarrow> (Raise e, st1)
            | None \<Rightarrow>
                (let line = strip text @ [newline];
                     st2 = st1\<lparr>fs := append_file output_path line (fs st1)\<rparr>
                 in segment_loop w rest output_path (Suc processed_segments) st2)))"

text \<open>
  Lines 246 to 257: \<open>open(output_path, "w")\<close> truncates, the loop runs, and leaving
  the \<open>with\<close> block closes the file on every path.
\<close>

definition write_segments ::
  "world \<Rightarrow> segment_item list \<Rightarrow> string \<Rightarrow> wstate \<Rightarrow> nat ctl \<times> wstate" where
  "write_segments w segments output_path st =
     (let st1 = called (CallOpenWrite output_path) st
      in case open_output w output_path of
           Some e \<Rightarrow> (Raise e, st1)
         | None \<Rightarrow>
             (let st2 = st1\<lparr>fs := (fs st1)(output_path \<mapsto> [])\<rparr>;
                  (r, st3) = segment_loop w segments output_path 0 st2
              in case file_close w of
                   Some e \<Rightarrow> (Raise e, st3)
                 | None \<Rightarrow> (r, st3)))"

text \<open>Lines 259 to 262.\<close>

definition report_completion :: "world \<Rightarrow> string \<Rightarrow> nat \<Rightarrow> wstate \<Rightarrow> unit ctl \<times> wstate" where
  "report_completion w output_path processed_segments st =
     (let (stop, st1) = is_set w st
      in if \<not> stop
         then (Next (),
               put (''success'', Some ''Transcription completed successfully!'')
                 (put (''log'', Some (''Result saved to: '' @ output_path))
                   (put (''log'', Some (''Transcription completed! Processed segments: ''
                                          @ show_nat processed_segments)) st1)))
         else (Next (), st1))"

text \<open>
  Lines 191 to 242 of the outer \<open>try\<close>: everything up to the two log lines about
  the transcription summary. The value is the lazy segment sequence.
\<close>

definition prepare :: "world \<Rightarrow> app_state \<Rightarrow> wstate \<Rightarrow> segment_item list ctl \<times> wstate" where
  "prepare w s st0 =
     (let input_path = audio_file s;
          lang = (if language s \<noteq> ''auto'' then Some (language s) else None);
          name = model_size s
      in and_then (select_audio w input_path st0) (\<lambda>audio_path st1.
         and_then (check_stop w
                     (put (''log'', Some (''Loading model: '' @ name))
                       (put (''status'', Some ''Loading model...'') st1))) (\<lambda>_ st2.
         and_then (load_model w name st2) (\<lambda>model st3.
         and_then (check_stop w st3) (\<lambda>_ st4.
         and_then (call_transcribe w model audio_path lang
                     (put (''log'', Some (''Starting transcription of file: ''
                                            @ basename (os_path w) input_path))
                       (put (''status'', Some ''Transcribing...'') st4))) (\<lambda>(segments, inf) st5.
         and_then (check_stop w st5) (\<lambda>_ st6.
           (Next segments,
            put (''log'', Some (''Approximate duration: '' @ info_duration inf
                                  @ '' seconds''))
              (put (''log'', Some (''Detected language: '' @ info_language inf
                                     @ '' (probability: ''
                                     @ info_language_probability inf @ '')'')) st6)))))))))"

text \<open>Lines 244 to 262 of the outer \<open>try\<close>: the segment-writing stage.\<close>

definition stream :: "world \<Rightarrow> string \<Rightarrow> segment_item list \<Rightarrow> wstate \<Rightarrow> unit ctl \<times> wstate" where
  "stream w output_path segments st =
     and_then (write_segments w segments output_path st) (report_completion w output_path)"

text \<open>Lines 191 to 262: the body of the outer \<open>try\<close>.\<close>

definition worker_body :: "world \<Rightarrow> app_state \<Rightarrow> wstate \<Rightarrow> unit ctl \<times> wstate" where
  "worker_body w s st0 = and_then (prepare w s st0) (stream w (output_file s))"

text \<open>Lines 264 to 267: the handler of the outer \<open>try\<close>.\<close>

definition report_error :: "exn \<Rightarrow> wstate \<Rightarrow> wstate" where
  "report_error e st =
     (let error_msg = ''An error occurred: '' @ str_exn e
      in put (''log'', Some (''ERROR: '' @ error_msg)) (put (''error'', Some error_msg) st))"

text \<open>Lines 271 to 276: the removal of the temporary audio file.\<close>

definition cleanup :: "world \<Rightarrow> wstate \<Rightarrow> wstate" where
  "cleanup w st =
     (case temp_audio_path st of
        None \<Rightarrow> st
      | Some p \<Rightarrow>
          if p \<noteq> [] \<and> fs st p \<noteq> None
          then
            (let st1 = called (CallUnlink p) st
             in case os_unlink w p of
                  None \<Rightarrow>
                    put (''log'', Some ''Temporary audio file cleaned up'')
                      (st1\<lparr>fs := (fs st1)(p := None)\<rparr>)
                | Some e \<Rightarrow>
                    put (''log'', Some (''Warning: Could not delete temporary file: ''
                                          @ str_exn e)) st1)
          else st)"

definition job_start :: "event list \<Rightarrow> (string \<Rightarrow> string option) \<Rightarrow> wstate" where
  "job_start q files =
     \<lparr>result_queue = q, fs = files, temp_audio_path = None,
      flag_reads = 0, model_loads = 0, calls = []\<rparr>"

text \<open>
  \<open>transcription_worker\<close>, run on the events already put on the queue and the files
  on disk when the thread starts.
\<close>

definition transcription_worker ::
  "world \<Rightarrow> app_state \<Rightarrow> event list \<Rightarrow> (string \<Rightarrow> string option) \<Rightarrow> wstate" where
  "transcription_worker w s q files =
     (let (r, st1) = worker_body w s (job_start q files);
          st2 = (case r of Raise e \<Rightarrow> report_error e st1 | _ \<Rightarrow> st1);
          st3 = cleanup w st2
      in put (''finished'', None) st3)"

text \<open>The events one job puts on the queue.\<close>

definition emitted :: "world \<Rightarrow> app_state \<Rightarrow> event list \<Rightarrow> (string \<Rightarrow> string option) \<Rightarrow> event list" where
  "emitted w s q files = drop (length q) (result_queue (transcription_worker w s q files))"

section \<open>The interactive side\<close>

record gui =
  state :: app_state
  stop_flag :: bool
  is_transcribing :: bool
  threads_started :: nat
  start_button_enabled :: bool
  stop_button_enabled :: bool
  progress_running :: bool
  status_label :: string
  log_text :: string
  dialogs :: "(string \<times> string \<times> string) list"

definition update_status :: "string \<Rightarrow> gui \<Rightarrow> gui" where
  "update_status status g = g\<lparr>status_label := status\<rparr>"

definition log_message :: "string \<Rightarrow> gui \<Rightarrow> gui" where
  "log_message message g = g\<lparr>log_text := log_text g @ message @ [newline]\<rparr>"

definition showerror :: "string \<Rightarrow> string \<Rightarrow> gui \<Rightarrow> gui" where
  "showerror title message g = g\<lparr>dialogs := dialogs g @ [(''showerror'', title, message)]\<rparr>"

definition showinfo :: "string \<Rightarrow> string \<Rightarrow> gui \<Rightarrow> gui" where
  "showinfo title message g = g\<lparr>dialogs := dialogs g @ [(''showinfo'', title, message)]\<rparr>"

text \<open>
  \<open>start_transcription\<close>. Starting the thread is counted in \<open>threads_started\<close>; the
  worker itself runs apart from this function.
\<close>

definition start_transcription :: "gui \<Rightarrow> gui" where
  "start_transcription g =
     (if is_transcribing g then g
      else if audio_file (state g) = [] then showerror ''Error'' ''Select audio or video file'' g
      else if output_file (state g) = [] then showerror ''Error'' ''Specify file for saving'' g
      else
        (update_status ''Initializing...''
           (g\<lparr>stop_flag := False, is_transcribing := True,
              start_button_enabled := False, stop_button_enabled := True,
              progress_running := True\<rparr>))
          \<lparr>log_text := [], threads_started := Suc (threads_started g)\<rparr>)"

definition stop_transcription :: "gui \<Rightarrow> gui" where
  "stop_transcription g = update_status ''Stopping...'' (g\<lparr>stop_flag := True\<rparr>)"

definition transcription_finished :: "gui \<Rightarrow> gui" where
  "transcription_finished g =
     update_status ''Ready to work''
       (g\<lparr>is_transcribing := False, start_button_enabled := True,
          stop_button_enabled := False, progress_running := False\<rparr>)"

text \<open>The dispatch made by \<open>check_queue\<close> for one message taken from the queue.\<close>

definition handle_event :: "event \<Rightarrow> gui \<Rightarrow> gui" where
  "handle_event ev g =
     (case ev of (message_type, data) \<Rightarrow>
        if message_type = ''status'' \<and> data \<noteq> None then update_status (the data) g
        else if message_type = ''log'' \<and> data \<noteq> None then log_message (the data) g
        else if message_type = ''error'' \<and> data \<noteq> None then showerror ''Error'' (the data) g
        else if message_type = ''success'' \<and> data \<noteq> None then showinfo ''Success'' (the data) g
        else if message_type = ''finished'' then transcription_finished g
        else g)"

text \<open>
  One run of \<open>check_queue\<close> on the messages the queue holds: \<open>get_nowait\<close> until
  \<open>queue.Empty\<close>, each message dispatched as it is taken.
\<close>

fun check_queue :: "gui \<Rightarrow> event list \<Rightarrow> gui" where
  "check_queue g [] = g"
| "check_queue g (ev # q) = check_queue (handle_event ev g) q"

text \<open>
  The two threads together. The worker puts its events one by one in the order it
  emits them; the interactive thread takes one message at a time. A schedule is any
  interleaving of the two.
\<close>

record channel_state =
  pending :: "event list"
  channel :: "event list"
  ui :: gui

datatype move = WorkerPut | PumpGet

fun move_step :: "move \<Rightarrow> channel_state \<Rightarrow> channel_state" where
  "move_step WorkerPut c =
     (case pending c of
        [] \<Rightarrow> c
      | ev # rest \<Rightarrow> c\<lparr>pending := rest, channel := channel c @ [ev]\<rparr>)"
| "move_step PumpGet c =
     (case channel c of
        [] \<Rightarrow> c
      | ev # rest \<Rightarrow> c\<lparr>channel := rest, ui := handle_event ev (ui c)\<rparr>)"

definition run_schedule :: "move list \<Rightarrow> channel_state \<Rightarrow> channel_state" where
  "run_schedule ms c = fold move_step ms c"

text \<open>The operations of the interactive thread on the controller.\<close>

datatype gui_op = Start | Stop | Handle event

fun apply_op :: "gui_op \<Rightarrow> gui \<Rightarrow> gui" where
  "apply_op Start g = start_transcription g"
| "apply_op Stop g = stop_transcription g"
| "apply_op (Handle ev) g = handle_event ev g"

section \<open>Auxiliary notions for the proofs\<close>

text \<open>
  The events of the pipeline stages: a status, log or success message with a text.
\<close>

definition plain :: "event \<Rightarrow> bool" where
  "plain ev = (fst ev \<in> {''status'', ''log'', ''success''} \<and> snd ev \<noteq> None)"

definition grows :: "wstate \<Rightarrow> wstate \<Rightarrow> bool" where
  "grows st st' = (\<exists>es. result_queue st' = result_queue st @ es \<and> list_all plain es)"

text \<open>
  The parts of what one job puts on the queue: the events of the \<open>try\<close> body, the two
  events of the outer handler, and the event of the \<open>finally\<close> block.
\<close>

definition body_events :: "world \<Rightarrow> app_state \<Rightarrow> event list \<Rightarrow> (string \<Rightarrow> string option) \<Rightarrow> event list" where
  "body_events w s q files =
     drop (length q) (result_queue (snd (worker_body w s (job_start q files))))"

definition error_events :: "exn \<Rightarrow> event list" where
  "error_events e =
     [(''error'', Some (''An error occurred: '' @ str_exn e)),
      (''log'', Some (''ERROR: An error occurred: '' @ str_exn e))]"

definition cleanup_events :: "world \<Rightarrow> wstate \<Rightarrow> event list" where
  "cleanup_events w st =
     (case temp_audio_path st of
        None \<Rightarrow> []
      | Some p \<Rightarrow>
          if p \<noteq> [] \<and> fs st p \<noteq> None
          then (case os_unlink w p of
                  None \<Rightarrow> [(''log'', Some ''Temporary audio file cleaned up'')]
                | Some e \<Rightarrow> [(''log'', Some (''Warning: Could not delete temporary file: ''
                                               @ str_exn e))])
          else [])"

text \<open>An event for which the dispatch of \<open>check_queue\<close> reaches a handler.\<close>

definition dispatched :: "event \<Rightarrow> bool" where
  "dispatched ev =
     (fst ev \<in> {''status'', ''log'', ''error'', ''success''} \<and> snd ev \<noteq> None
      \<or> fst ev = ''finished'')"

definition initial_channel :: "event list \<Rightarrow> gui \<Rightarrow> channel_state" where
  "initial_channel es g = \<lparr>pending = es, channel = [], ui = g\<rparr>"

text \<open>How many of the job's events the interactive thread has taken so far.\<close>

definition taken :: "event list \<Rightarrow> channel_state \<Rightarrow> nat" where
  "taken es c = length es - length (channel c @ pending c)"

definition is_finished :: "event \<Rightarrow> bool" where
  "is_finished ev = (fst ev = ''finished'')"

definition is_error :: "event \<Rightarrow> bool" where
  "is_error ev = (fst ev = ''error'')"

text \<open>What the loop writes for a list of segment texts: one line for each.\<close>

definition written_text :: "string list \<Rightarrow> string" where
  "written_text ts = concat (map (\<lambda>t. strip t @ [newline]) ts)"


definition stop_log :: event where
  "stop_log = (''log'', Some ''Transcription stopped by user'')"


text \<open>
  What the interface shows of a sequence of events: the messages appended to the log
  text, the dialogs opened, and the texts the status label takes, each in the order
  of the events.
\<close>

definition log_message_of :: "event \<Rightarrow> string list" where
  "log_message_of ev =
     (if fst ev = ''log'' \<and> snd ev \<noteq> None then [the (snd ev)] else [])"

definition dialog_of :: "event \<Rightarrow> (string \<times> string \<times> string) list" where
  "dialog_of ev =
     (if fst ev = ''error'' \<and> snd ev \<noteq> None then [(''showerror'', ''Error'', the (snd ev))]
      else if fst ev = ''success'' \<and> snd ev \<noteq> None
      then [(''showinfo'', ''Success'', the (snd ev))]
      else [])"

definition status_of :: "event \<Rightarrow> string list" where
  "status_of ev =
     (if fst ev = ''status'' \<and> snd ev \<noteq> None then [the (snd ev)]
      else if fst ev = ''finished'' then [''Ready to work'']
      else [])"

definition log_messages :: "event list \<Rightarrow> string list" where
  "log_messages es = concat (map log_message_of es)"

definition dialog_entries :: "event list \<Rightarrow> (string \<times> string \<times> string) list" where
  "dialog_entries es = concat (map dialog_of es)"

definition status_texts :: "event list \<Rightarrow> string list" where
  "status_texts es = concat (map status_of es)"

definition log_block :: "string list \<Rightarrow> string" where
  "log_block ms = concat (map (\<lambda>m. m @ [newline]) ms)"

section \<open>Example jobs\<close>

definition example_info :: info where
  "example_info =
     \<lparr>info_language = ''en'', info_language_probability = ''0.98'',
      info_duration = ''12.50''\<rparr>"

definition ten_texts :: "string list" where
  "ten_texts =
     ['' one'', '' two'', '' three'', '' four'', '' five'',
      '' six'', '' seven'', '' eight'', '' nine'', '' ten'']"

definition ten_segments :: "segment_item list" where
  "ten_segments = map Yield ten_texts"

text \<open>A world in which every call succeeds and the stop flag is never set.\<close>

definition calm_world :: world where
  "calm_world =
     \<lparr>os_path = Posix,
      stop_flag_is_set = (\<lambda>k. False),
      named_temporary_file = Inr ''/tmp/tmpab12.wav'',
      video_file_clip = (\<lambda>p. Inr True),
      write_audiofile = (\<lambda>p. Inr ''RIFF-WAVE''),
      video_close = None,
      os_unlink = (\<lambda>p. None),
      whisper_model = (\<lambda>k p. None),
      download_model = (\<lambda>n r p. None),
      transcribe = (\<lambda>m a l. Inr (ten_segments, example_info)),
      open_output = (\<lambda>p. None),
      file_write = (\<lambda>k. None),
      file_close = None\<rparr>"

definition audio_job :: app_state where
  "audio_job =
     \<lparr>audio_file = ''talk.mp3'', output_file = ''out.txt'', language = ''auto'',
      model_size = ''tiny''\<rparr>"

definition video_job :: app_state where
  "video_job =
     \<lparr>audio_file = ''interview.mp4'', output_file = ''out.txt'', language = ''auto'',
      model_size = ''tiny''\<rparr>"

text \<open>
  For an audio input the flag is read three times before the segment loop. In this
  world the user presses Stop after the third segment is written: the sixth read
  is the first to see the flag set.
\<close>

definition stop_after_three :: world where
  "stop_after_three = calm_world\<lparr>stop_flag_is_set := (\<lambda>k. 6 \<le> k)\<rparr>"

definition no_files :: "string \<Rightarrow> string option" where
  "no_files = (\<lambda>p. None)"

definition idle_gui :: gui where
  "idle_gui =
     \<lparr>state = audio_job, stop_flag = False, is_transcribing = False, threads_started = 0,
      start_button_enabled = True, stop_button_enabled = False, progress_running = False,
      status_label = ''Ready to work'', log_text = [], dialogs = []\<rparr>"

text \<open>
  A world in which the audio track of a video is extracted, the model then fails to
  load, and the temporary file cannot be removed.
\<close>

definition failing_world :: world where
  "failing_world =
     calm_world
       \<lparr>whisper_model := (\<lambda>k p. Some (OtherError ''model.bin is corrupt'')),
        os_unlink := (\<lambda>p. Some (OtherError ''file is in use''))\<rparr>"

text \<open>
  The state of the worker of an audio job when it reaches the segment-writing stage:
  three reads of the flag and one model construction have been made.
\<close>

definition before_loop :: wstate where
  "before_loop =
     \<lparr>result_queue = [], fs = no_files, temp_audio_path = None,
      flag_reads = 3, model_loads = 1, calls = []\<rparr>"

text \<open>
  Worlds in which the user presses Stop between the check that follows
  \<open>model.transcribe\<close> and the segment loop: the fourth read of the flag is the first
  to see it set. In the first the model yields ten segments, in the second (a silent
  recording) none. The output path holds an earlier transcript.
\<close>

definition early_stop_world :: world where
  "early_stop_world = calm_world\<lparr>stop_flag_is_set := (\<lambda>k. 3 \<le> k)\<rparr>"

definition silent_stop_world :: world where
  "silent_stop_world =
     calm_world\<lparr>stop_flag_is_set := (\<lambda>k. 3 \<le> k),
                transcribe := (\<lambda>m a l. Inr ([], example_info))\<rparr>"

definition old_files :: "string \<Rightarrow> string option" where
  "old_files = no_files(''out.txt'' \<mapsto> ''old transcript'')"

text \<open>
  An idle interface on which Stop was pressed and no input file is selected, and an
  interface with a job running.
\<close>

definition no_input_gui :: gui where
  "no_input_gui =
     idle_gui\<lparr>state := audio_job\<lparr>audio_file := []\<rparr>, stop_flag := True\<rparr>"

definition busy_gui :: gui where
  "busy_gui =
     idle_gui\<lparr>is_transcribing := True, threads_started := 1,
              start_button_enabled := False, stop_button_enabled := True,
              progress_running := True, status_label := ''Transcribing...''\<rparr>"

text \<open>A sequence of operations of the interactive thread, applied in order.\<close>

definition apply_ops :: "gui_op list \<Rightarrow> gui \<Rightarrow> gui" where
  "apply_ops ops g = fold apply_op ops g"

text \<open>The path of the default model and messages of the model-loading stage.\<close>

definition base_path :: string where
  "base_path = ''./models/models--Systran--faster-whisper-base''"

definition tiny_path :: string where
  "tiny_path = ''./models/models--Systran--faster-whisper-tiny''"

definition fallback_log :: "string \<Rightarrow> event" where
  "fallback_log name =
     (''log'', Some (''Model '' @ quoted name @ '' not found, using '' @ quoted ''base''))"

definition downloading_log :: "string \<Rightarrow> event" where
  "downloading_log name =
     (''log'', Some (''Model '' @ quoted name @ '' not found, downloading...''))"

definition downloaded_log :: "string \<Rightarrow> event" where
  "downloaded_log name =
     (''log'', Some (''Model '' @ quoted name @ '' downloaded successfully''))"

text \<open>
  A job that asks for a model identifier outside the table, and worlds for the
  model-loading stage: one in which no model directory exists yet, so that every
  construction fails validation of the path as a repository identifier; one in
  which only the first construction fails that way; and one in which the first
  construction raises a \<open>KeyError\<close> of its own.
\<close>

definition unknown_model_job :: app_state where
  "unknown_model_job = audio_job\<lparr>model_size := ''huge''\<rparr>"

definition invalid_repo_id :: exn where
  "invalid_repo_id = HFValidationError ''Repo id must use alphanumeric chars''"

definition nothing_downloaded :: world where
  "nothing_downloaded = calm_world\<lparr>whisper_model := (\<lambda>k p. Some invalid_repo_id)\<rparr>"

definition first_load_invalid :: world where
  "first_load_invalid =
     calm_world\<lparr>whisper_model := (\<lambda>k p. if k = 0 then Some invalid_repo_id else None)\<rparr>"

definition loader_key_error :: world where
  "loader_key_error =
     calm_world\<lparr>whisper_model := (\<lambda>k p. if k = 0 then Some (KeyError ''vocab'') else None)\<rparr>"

text \<open>A world in which the video has no audio track.\<close>

definition silent_video_world :: world where
  "silent_video_world = calm_world\<lparr>video_file_clip := (\<lambda>p. Inr False)\<rparr>"

definition temp_wav :: string where
  "temp_wav = ''/tmp/tmpab12.wav''"


text \<open>
  The path \<open>clip.mKv\<close> whose \<open>K\<close> is the Kelvin sign \<open>U+212A\<close>.
\<close>

definition kelvin_path :: string where
  "kelvin_path = ''clip.m'' @ [CHR 0xE2, CHR 0x84, CHR 0xAA] @ ''v''"

text \<open>
  A world in which the video has no audio track and the temporary file cannot be
  removed.
\<close>

definition unlink_fails_world :: world where
  "unlink_fails_world =
     silent_video_world\<lparr>os_unlink := (\<lambda>p. Some (OtherError ''file is in use''))\<rparr>"

section \<open>Unfolding the model\<close>

lemmas worker_defs =
  transcription_worker_def worker_body_def prepare_def stream_def job_start_def emitted_def select_audio_def
  and_then_def check_stop_def is_set_def put_def called_def load_model_def subscript_def
  construct_model_def call_download_model_def call_transcribe_def write_segments_def
  report_completion_def
  cleanup_def report_error_def extract_audio_from_video_def demux_def append_file_def

lemmas path_defs =
  is_video_file_def splitext_def rfind_def skip_leading_dots.simps extsep_def lower.simps
  lower_char_def video_extensions_def ascii_uppercase_def ascii_lowercase_def basename_def
  is_sep_def backslash_def

lemmas text_defs = strip_def is_space_def whitespace_def quoted_def apostrophe_def newline_def

lemmas example_defs =
  calm_world_def audio_job_def video_job_def stop_after_three_def no_files_def
  example_info_def ten_texts_def ten_segments_def idle_gui_def failing_world_def
  early_stop_world_def silent_stop_world_def old_files_def no_input_gui_def busy_gui_def
  unknown_model_job_def invalid_repo_id_def nothing_downloaded_def first_load_invalid_def
  loader_key_error_def silent_video_world_def unlink_fails_world_def

lemma talk_mp3_is_audio: "\<not> is_video_file Posix ''talk.mp3''"
  by (simp add: path_defs)

lemma interview_mp4_is_video: "is_video_file Posix ''interview.mp4''"
  by (simp add: path_defs)

lemma basename_talk_mp3: "basename Posix ''talk.mp3'' = ''talk.mp3''"
  by (simp add: path_defs)

lemma basename_interview_mp4: "basename Posix ''interview.mp4'' = ''interview.mp4''"
  by (simp add: path_defs)

lemma available_tiny:
  "map_of AVAILABLE_MODELS ''tiny'' = Some ''./models/models--Systran--faster-whisper-tiny''"
  by (simp add: AVAILABLE_MODELS_def)

lemma available_base:
  "map_of AVAILABLE_MODELS ''base'' = Some ''./models/models--Systran--faster-whisper-base''"
  by (simp add: AVAILABLE_MODELS_def)

lemma mapping_tiny:
  "map_of HF_MODEL_MAPPING ''tiny'' = Some ''Systran/faster-whisper-tiny''"
  by (simp add: HF_MODEL_MAPPING_def)

lemmas example_facts =
  talk_mp3_is_audio interview_mp4_is_video basename_talk_mp3 basename_interview_mp4
  available_tiny available_base mapping_tiny

lemma stop_after_three_events:
  "emitted stop_after_three audio_job [] no_files =
     [(''status'', Some ''Loading model...''),
      (''log'', Some ''Loading model: tiny''),
      (''status'', Some ''Transcribing...''),
      (''log'', Some ''Starting transcription of file: talk.mp3''),
      (''log'', Some ''Detected language: en (probability: 0.98)''),
      (''log'', Some ''Approximate duration: 12.50 seconds''),
      (''log'', Some ''Transcription stopped by user''),
      (''finished'', None)]"
  by (simp add: worker_defs example_defs example_facts Let_def)

section \<open>The events of a job\<close>

lemma grows_refl [simp]: "grows st st"
  by (simp add: grows_def)

lemma grows_trans: "grows a b \<Longrightarrow> grows b c \<Longrightarrow> grows a c"
  by (auto simp: grows_def)

lemma grows_queue_eq: "result_queue b = result_queue a \<Longrightarrow> grows a b"
  by (simp add: grows_def)

lemma grows_cong_left: "result_queue a = result_queue a' \<Longrightarrow> grows a b = grows a' b"
  by (simp add: grows_def)

lemma grows_put: "plain ev \<Longrightarrow> grows a b \<Longrightarrow> grows a (put ev b)"
  by (auto simp: grows_def put_def)

lemma grows_called [simp]: "grows a (called c b) = grows a b"
  by (simp add: grows_def called_def)

lemma plain_simps [simp]:
  "plain (''status'', Some x)" "plain (''log'', Some x)" "plain (''success'', Some x)"
  by (simp_all add: plain_def)

lemma grows_and_then:
  assumes "grows st (snd m)" and "\<And>x st1. grows st1 (snd (f x st1))"
  shows "grows st (snd (and_then m f))"
proof (cases m)
  case (Pair r st1)
  with assms show ?thesis
    by (cases r) (auto simp: and_then_def intro: grows_trans)
qed

lemma grows_is_set: "grows st (snd (is_set w st))"
  by (simp add: is_set_def grows_queue_eq)

lemma grows_check_stop: "grows st (snd (check_stop w st))"
  by (simp add: check_stop_def is_set_def grows_queue_eq split: prod.splits)

lemma grows_subscript: "grows st (snd (subscript d k st))"
  by (simp add: subscript_def split: option.splits)

lemma grows_demux: "grows st (snd (demux w v t st))"
  by (auto simp: demux_def Let_def grows_def called_def split: sum.splits option.splits)


lemma demux_queue: "result_queue (snd (demux w v t st)) = result_queue st"
  by (simp add: demux_def Let_def called_def split: sum.splits option.splits)

lemma grows_upd [simp]:
  "grows a (b\<lparr>fs := f\<rparr>) = grows a b"
  "grows a (b\<lparr>temp_audio_path := t\<rparr>) = grows a b"
  "grows a (b\<lparr>flag_reads := n\<rparr>) = grows a b"
  "grows a (b\<lparr>model_loads := n\<rparr>) = grows a b"
  by (simp_all add: grows_def)

lemma grows_extract: "grows st (snd (extract_audio_from_video w v st))"
proof -
  let ?st2 = "put (''log'', Some (''Extracting audio from video: '' @ basename (os_path w) v))
                (put (''status'', Some ''Extracting audio from video...'') st)"
  have g2: "grows st ?st2"
    by (intro grows_put) simp_all
  show ?thesis
  proof (cases "named_temporary_file w")
    case (Inl e)
    with g2 show ?thesis
      by (simp add: extract_audio_from_video_def)
  next
    case (Inr t)
    let ?st3 = "?st2\<lparr>fs := (fs ?st2)(t \<mapsto> [])\<rparr>"
    obtain r st4 where d: "demux w v t ?st3 = (r, st4)"
      by force
    have "result_queue (snd (demux w v t ?st3)) = result_queue ?st3"
      by (rule demux_queue)
    then have "result_queue st4 = result_queue ?st2"
      unfolding d by simp
    with g2 have g4: "grows st st4"
      by (simp add: grows_def)
    from Inr d g4 show ?thesis
      by (auto simp: extract_audio_from_video_def Let_def split: option.splits intro!: grows_put)
  qed
qed

lemma grows_select_audio: "grows st (snd (select_audio w p st))"
  unfolding select_audio_def
  by (auto intro!: grows_and_then grows_check_stop grows_extract simp: grows_queue_eq)

lemma grows_construct_model: "grows st (snd (construct_model w p st))"
  by (simp add: construct_model_def Let_def grows_queue_eq called_def split: option.splits)

lemma grows_call_download_model: "grows st (snd (call_download_model w n r p st))"
  by (simp add: call_download_model_def Let_def split: option.splits)

lemma grows_download_branch:
  "grows st (snd (and_then (call_download_model w n r p st) (\<lambda>_ st5.
                    construct_model w p (put (''log'', Some y) st5))))"
  by (intro grows_and_then grows_call_download_model
        grows_trans [OF _ grows_construct_model] grows_put) simp_all

lemma grows_load_model: "grows st (snd (load_model w n st))"
proof -
  let ?m = "and_then (subscript AVAILABLE_MODELS n st) (construct_model w)"
  have m: "grows st (snd ?m)"
    by (intro grows_and_then grows_subscript grows_construct_model)
  obtain r st1 where eq: "?m = (r, st1)" by (cases ?m)
  with m have g1: "grows st st1" by simp
  have p: "grows st (put (''log'', Some x) st1)" for x
    using g1 by (intro grows_put) simp_all
  have k: "grows st (snd (and_then (subscript AVAILABLE_MODELS ''base'' (put (''log'', Some x) st1)) (construct_model w)))" for x
    by (intro grows_and_then grows_construct_model grows_trans [OF p grows_subscript])
  have h: "grows st (snd (and_then (subscript AVAILABLE_MODELS n (put (''log'', Some x) st1)) (\<lambda>model_path st3.
              and_then (subscript HF_MODEL_MAPPING n st3) (\<lambda>repo_id st4.
                and_then (call_download_model w n repo_id model_path st4) (\<lambda>_ st5.
                  construct_model w model_path (put (''log'', Some y) st5))))))" for x y
    by (intro grows_and_then grows_trans [OF p grows_subscript] grows_subscript grows_download_branch)
  show ?thesis
    unfolding load_model_def eq
    using g1 k h
    by (simp split: ctl.splits exn.splits add: Let_def)
qed

lemma grows_call_transcribe: "grows st (snd (call_transcribe w m a l st))"
  by (simp add: call_transcribe_def Let_def split: sum.splits)

lemma grows_segment_loop: "grows st (snd (segment_loop w segs out n st))"
proof (induction segs arbitrary: n st)
  case Nil
  show ?case by simp
next
  case (Cons item rest)
  show ?case
  proof (cases item)
    case (Fail e)
    then show ?thesis by simp
  next
    case (Yield t)
    show ?thesis
    proof (cases "stop_flag_is_set w (flag_reads st)")
      case True
      with Yield show ?thesis
        by (auto simp: is_set_def intro!: grows_put)
    next
      case False
      show ?thesis
      proof (cases "file_write w n")
        case None
        let ?st2 = "st\<lparr>flag_reads := Suc (flag_reads st),
                       fs := append_file out (strip t @ [newline]) (fs st)\<rparr>"
        have "grows st ?st2" by simp
        then have "grows st (snd (segment_loop w rest out (Suc n) ?st2))"
          by (rule grows_trans [OF _ Cons.IH])
        with Yield False None show ?thesis
          by (simp add: is_set_def Let_def)
      next
        case (Some e)
        with Yield False show ?thesis by (simp add: is_set_def)
      qed
    qed
  qed
qed

lemma grows_write_segments: "grows st (snd (write_segments w segs out st))"
proof -
  have "grows st (snd (segment_loop w segs out 0 ((called (CallOpenWrite out) st)\<lparr>fs := (fs (called (CallOpenWrite out) st))(out \<mapsto> [])\<rparr>)))"
    by (rule grows_trans [OF _ grows_segment_loop]) simp
  then show ?thesis
    by (cases "segment_loop w segs out 0 ((called (CallOpenWrite out) st)\<lparr>fs := (fs (called (CallOpenWrite out) st))(out \<mapsto> [])\<rparr>)")
       (simp add: write_segments_def Let_def split: option.splits)
qed

lemma grows_report_completion: "grows st (snd (report_completion w out n st))"
  by (auto simp: report_completion_def is_set_def intro!: grows_put)

lemma grows_stream: "grows st (snd (stream w out segments st))"
  unfolding stream_def
  by (intro grows_and_then grows_write_segments grows_report_completion)

lemma grows_prepare: "grows st (snd (prepare w s st))"
  unfolding prepare_def Let_def
  by (intro grows_and_then grows_select_audio grows_load_model
        grows_trans [OF _ grows_check_stop] grows_trans [OF _ grows_call_transcribe]
        grows_put grows_check_stop)
     (auto split: prod.splits intro!: grows_and_then grows_check_stop grows_put)

lemma grows_worker_body: "grows st (snd (worker_body w s st))"
  unfolding worker_body_def
  by (intro grows_and_then grows_prepare grows_stream)

lemma worker_body_queue:
  "\<exists>es. result_queue (snd (worker_body w s (job_start q files))) = q @ es \<and> list_all plain es"
  using grows_worker_body [of "job_start q files" w s]
  by (simp add: grows_def job_start_def)

lemma body_events_eq:
  "result_queue (snd (worker_body w s (job_start q files))) = q @ body_events w s q files"
  using worker_body_queue [of w s q files] by (auto simp: body_events_def)

lemma body_events_plain: "list_all plain (body_events w s q files)"
  using worker_body_queue [of w s q files] by (auto simp: body_events_def)

lemma cleanup_queue: "result_queue (cleanup w st) = result_queue st @ cleanup_events w st"
  by (simp add: cleanup_def cleanup_events_def put_def called_def Let_def split: option.splits)

lemma cleanup_events_plain: "list_all plain (cleanup_events w st)"
  by (simp add: cleanup_events_def split: option.splits)

lemma cleanup_events_report_error [simp]:
  "cleanup_events w (report_error e st) = cleanup_events w st"
  by (simp add: cleanup_events_def report_error_def put_def Let_def split: option.splits)

lemma report_error_queue: "result_queue (report_error e st) = result_queue st @ error_events e"
  by (simp add: report_error_def error_events_def put_def Let_def)

lemma emitted_decomposition:
  "emitted w s q files =
     body_events w s q files
     @ (case fst (worker_body w s (job_start q files)) of Raise e \<Rightarrow> error_events e | _ \<Rightarrow> [])
     @ cleanup_events w (snd (worker_body w s (job_start q files)))
     @ [(''finished'', None)]"
proof -
  obtain r st1 where b: "worker_body w s (job_start q files) = (r, st1)"
    by force
  have q1: "result_queue st1 = q @ body_events w s q files"
    using body_events_eq [of w s q files] b by simp
  show ?thesis
    by (cases r)
       (simp_all add: emitted_def transcription_worker_def b put_def cleanup_queue
          report_error_queue q1)
qed

lemma plain_not_finished: "plain ev \<Longrightarrow> fst ev \<noteq> ''finished''"
  by (auto simp: plain_def)

lemma plain_not_error: "plain ev \<Longrightarrow> fst ev \<noteq> ''error''"
  by (auto simp: plain_def)

lemma plain_dispatched: "plain ev \<Longrightarrow> dispatched ev"
  by (auto simp: plain_def dispatched_def)

lemma list_all_plain_dispatched: "list_all plain es \<Longrightarrow> list_all dispatched es"
  by (auto simp: list_all_iff intro: plain_dispatched)

lemma filter_plain_finished: "list_all plain es \<Longrightarrow> filter is_finished es = []"
  by (induction es) (auto simp: is_finished_def dest: plain_not_finished)

lemma filter_plain_error: "list_all plain es \<Longrightarrow> filter is_error es = []"
  by (induction es) (auto simp: is_error_def dest: plain_not_error)

lemma check_queue_append: "check_queue g (xs @ ys) = check_queue (check_queue g xs) ys"
  by (induction xs arbitrary: g) simp_all

lemma move_step_prefix:
  assumes "k \<le> length es" "ui c = check_queue g (take k es)" "channel c @ pending c = drop k es"
  shows "\<exists>k'. k' \<le> length es \<and> ui (move_step m c) = check_queue g (take k' es)
              \<and> channel (move_step m c) @ pending (move_step m c) = drop k' es"
proof (cases m)
  case WorkerPut
  with assms show ?thesis
    by (cases "pending c") auto
next
  case PumpGet
  show ?thesis
  proof (cases "channel c")
    case Nil
    with PumpGet assms show ?thesis by auto
  next
    case (Cons ev rest)
    with assms(3) have d: "drop k es = ev # rest @ pending c" by simp
    then have lt: "k < length es" by (metis drop_all list.distinct(1) not_le)
    from d have "es ! k = ev" by (metis lt Cons_nth_drop_Suc list.inject)
    moreover from d have "drop (Suc k) es = rest @ pending c"
      by (metis lt Cons_nth_drop_Suc list.inject)
    ultimately show ?thesis
      using PumpGet Cons assms(2) lt
      by (intro exI [of _ "Suc k"]) (simp add: take_Suc_conv_app_nth check_queue_append)
  qed
qed

lemma run_schedule_prefix:
  assumes "k \<le> length es" "ui c = check_queue g (take k es)" "channel c @ pending c = drop k es"
  shows "\<exists>k'. k' \<le> length es \<and> ui (run_schedule ms c) = check_queue g (take k' es)
              \<and> channel (run_schedule ms c) @ pending (run_schedule ms c) = drop k' es"
  using assms
proof (induction ms arbitrary: k c)
  case Nil
  then show ?case by (auto simp: run_schedule_def)
next
  case (Cons m ms)
  from move_step_prefix [OF Cons.prems] obtain k' where
    "k' \<le> length es" "ui (move_step m c) = check_queue g (take k' es)"
    "channel (move_step m c) @ pending (move_step m c) = drop k' es"
    by blast
  from Cons.IH [OF this] show ?case
    by (simp add: run_schedule_def)
qed

lemma run_schedule_taken:
  "ui (run_schedule ms (initial_channel es g))
     = check_queue g (take (taken es (run_schedule ms (initial_channel es g))) es)
   \<and> channel (run_schedule ms (initial_channel es g)) @ pending (run_schedule ms (initial_channel es g))
     = drop (taken es (run_schedule ms (initial_channel es g))) es"
proof -
  let ?c = "run_schedule ms (initial_channel es g)"
  have "\<exists>k'. k' \<le> length es \<and> ui ?c = check_queue g (take k' es)
              \<and> channel ?c @ pending ?c = drop k' es"
    by (rule run_schedule_prefix [of 0]) (simp_all add: initial_channel_def)
  then obtain k where k: "k \<le> length es" "ui ?c = check_queue g (take k es)"
      "channel ?c @ pending ?c = drop k es"
    by blast
  from k(1,3) have "taken es ?c = k"
    unfolding taken_def by (metis diff_diff_cancel length_drop)
  with k show ?thesis by simp
qed

lemma run_schedule_remaining:
  "check_queue (ui (run_schedule ms (initial_channel es g)))
     (channel (run_schedule ms (initial_channel es g)) @ pending (run_schedule ms (initial_channel es g)))
   = check_queue g es"
proof -
  let ?c = "run_schedule ms (initial_channel es g)"
  from run_schedule_taken [of ms es g]
  have "check_queue (ui ?c) (channel ?c @ pending ?c)
        = check_queue g (take (taken es ?c) es @ drop (taken es ?c) es)"
    by (simp only: check_queue_append)
  then show ?thesis by simp
qed

lemmas handler_defs =
  handle_event_def update_status_def log_message_def showerror_def showinfo_def
  transcription_finished_def

lemmas shown_defs =
  log_message_of_def dialog_of_def status_of_def log_block_def is_finished_def

lemma handle_event_shows:
  "log_text (handle_event ev g) = log_text g @ log_block (log_message_of ev)
   \<and> dialogs (handle_event ev g) = dialogs g @ dialog_of ev
   \<and> status_label (handle_event ev g) = last (status_label g # status_of ev)
   \<and> is_transcribing (handle_event ev g) = (is_transcribing g \<and> \<not> is_finished ev)
   \<and> start_button_enabled (handle_event ev g) = (start_button_enabled g \<or> is_finished ev)
   \<and> stop_button_enabled (handle_event ev g) = (stop_button_enabled g \<and> \<not> is_finished ev)
   \<and> progress_running (handle_event ev g) = (progress_running g \<and> \<not> is_finished ev)"
proof (cases ev)
  case (Pair t d)
  show ?thesis
  proof (cases d)
    case None
    show ?thesis
    proof (cases "t = ''finished''")
      case True
      with Pair None show ?thesis by (simp add: handler_defs shown_defs)
    next
      case False
      with Pair None show ?thesis by (simp add: handler_defs shown_defs)
    qed
  next
    case (Some m)
    consider (status) "t = ''status''" | (log) "t = ''log''" | (error) "t = ''error''"
      | (success) "t = ''success''" | (finished) "t = ''finished''"
      | (other) "t \<noteq> ''status''" "t \<noteq> ''log''" "t \<noteq> ''error''" "t \<noteq> ''success''"
          "t \<noteq> ''finished''"
      by blast
    then show ?thesis
    proof cases
      case status
      with Pair Some show ?thesis by (simp add: handler_defs shown_defs)
    next
      case log
      with Pair Some show ?thesis by (simp add: handler_defs shown_defs)
    next
      case error
      with Pair Some show ?thesis by (simp add: handler_defs shown_defs)
    next
      case success
      with Pair Some show ?thesis by (simp add: handler_defs shown_defs)
    next
      case finished
      with Pair Some show ?thesis by (simp add: handler_defs shown_defs)
    next
      case other
      with Pair Some show ?thesis by (simp add: handler_defs shown_defs)
    qed
  qed
qed

lemma last_status_append:
  "last (last (x # xs) # ys) = last (x # xs @ ys)"
  by (cases ys) (simp_all add: last_append)

lemma check_queue_shows:
  "log_text (check_queue g es) = log_text g @ log_block (log_messages es)
   \<and> dialogs (check_queue g es) = dialogs g @ dialog_entries es
   \<and> status_label (check_queue g es) = last (status_label g # status_texts es)
   \<and> is_transcribing (check_queue g es) = (is_transcribing g \<and> \<not> list_ex is_finished es)
   \<and> start_button_enabled (check_queue g es)
       = (start_button_enabled g \<or> list_ex is_finished es)
   \<and> stop_button_enabled (check_queue g es)
       = (stop_button_enabled g \<and> \<not> list_ex is_finished es)
   \<and> progress_running (check_queue g es) = (progress_running g \<and> \<not> list_ex is_finished es)"
proof (induction es arbitrary: g)
  case Nil
  show ?case
    by (simp add: log_messages_def dialog_entries_def status_texts_def log_block_def)
next
  case (Cons ev es)
  note h = handle_event_shows [of ev g]
  note ih = Cons.IH [of "handle_event ev g"]
  have lb: "log_block (a @ b) = log_block a @ log_block b" for a b
    by (simp add: log_block_def)
  have 1: "log_text (check_queue g (ev # es)) = log_text g @ log_block (log_messages (ev # es))"
    using h ih by (simp add: log_messages_def lb)
  have 2: "dialogs (check_queue g (ev # es)) = dialogs g @ dialog_entries (ev # es)"
    using h ih by (simp add: dialog_entries_def)
  have 3: "status_label (check_queue g (ev # es))
           = last (status_label g # status_texts (ev # es))"
  proof -
    have "status_label (check_queue g (ev # es))
          = last (last (status_label g # status_of ev) # status_texts es)"
      using h ih by simp
    also have "\<dots> = last (status_label g # status_of ev @ status_texts es)"
      by (rule last_status_append)
    finally show ?thesis by (simp add: status_texts_def)
  qed
  have 4: "is_transcribing (check_queue g (ev # es))
           = (is_transcribing g \<and> \<not> list_ex is_finished (ev # es))"
    using h ih by auto
  have 5: "start_button_enabled (check_queue g (ev # es))
           = (start_button_enabled g \<or> list_ex is_finished (ev # es))"
    using h ih by auto
  have 6: "stop_button_enabled (check_queue g (ev # es))
           = (stop_button_enabled g \<and> \<not> list_ex is_finished (ev # es))"
    using h ih by auto
  have 7: "progress_running (check_queue g (ev # es))
           = (progress_running g \<and> \<not> list_ex is_finished (ev # es))"
    using h ih by auto
  show ?case
    by (intro conjI 1 2 3 4 5 6 7)
qed

lemma dispatched_shown_once:
  assumes "dispatched ev"
  shows "length (log_message_of ev) + length (dialog_of ev) + length (status_of ev) = 1"
proof (cases ev)
  case (Pair t d)
  from assms Pair
  have disj: "(t = ''status'' \<or> t = ''log'' \<or> t = ''error'' \<or> t = ''success'') \<and> d \<noteq> None
              \<or> t = ''finished''"
    by (simp add: dispatched_def)
  show ?thesis
  proof (cases "t = ''finished''")
    case True
    with Pair show ?thesis
      by (simp add: log_message_of_def dialog_of_def status_of_def)
  next
    case False
    with disj have d: "d \<noteq> None"
      and tt: "t = ''status'' \<or> t = ''log'' \<or> t = ''error'' \<or> t = ''success''"
      by simp_all
    from tt show ?thesis
    proof (elim disjE)
      assume "t = ''status''"
      with Pair d show ?thesis
        by (simp add: log_message_of_def dialog_of_def status_of_def)
    next
      assume "t = ''log''"
      with Pair d show ?thesis
        by (simp add: log_message_of_def dialog_of_def status_of_def)
    next
      assume "t = ''error''"
      with Pair d show ?thesis
        by (simp add: log_message_of_def dialog_of_def status_of_def)
    next
      assume "t = ''success''"
      with Pair d show ?thesis
        by (simp add: log_message_of_def dialog_of_def status_of_def)
    qed
  qed
qed

lemma all_dispatched_shown:
  "list_all dispatched es \<Longrightarrow>
     length (log_messages es) + length (dialog_entries es) + length (status_texts es) = length es"
proof (induction es)
  case Nil
  show ?case by (simp add: log_messages_def dialog_entries_def status_texts_def)
next
  case (Cons ev es)
  then have "dispatched ev" and "list_all dispatched es" by simp_all
  from dispatched_shown_once [OF this(1)] Cons.IH [OF this(2)]
  show ?case
    by (simp add: log_messages_def dialog_entries_def status_texts_def)
qed

lemma finished_only_last:
  assumes "length (filter is_finished es) = 1" "last es = (''finished'', None)" "es \<noteq> []"
  shows "list_ex is_finished (take k es) \<longleftrightarrow> length es \<le> k"
proof -
  from assms(3) have es: "es = butlast es @ [last es]" by simp
  have fl: "is_finished (last es)" by (simp add: assms(2) is_finished_def)
  from assms(1) have "length (filter is_finished (butlast es @ [last es])) = 1"
    using es by simp
  with fl have nb: "filter is_finished (butlast es) = []" by simp
  show ?thesis
  proof (cases "length es \<le> k")
    case True
    then have "take k es = es" by simp
    moreover have "list_ex is_finished es"
      using fl assms(3) by (auto simp: list_ex_iff)
    ultimately show ?thesis using True by simp
  next
    case False
    then have "take k es = take k (butlast es)"
      by (metis es butlast_snoc length_butlast take_butlast not_le)
    moreover have "\<not> list_ex is_finished (take k (butlast es))"
      using nb by (auto simp: list_ex_iff filter_empty_conv dest: in_set_takeD)
    ultimately show ?thesis using False by simp
  qed
qed

lemma status_after_finished:
  assumes "last es = (''finished'', None)" "es \<noteq> []"
  shows "status_label (check_queue g es) = ''Ready to work''"
proof -
  from assms have es: "es = butlast es @ [(''finished'', None)]"
    by (metis append_butlast_last_id)
  have "status_texts (butlast es @ [(''finished'', None)])
        = status_texts (butlast es) @ [''Ready to work'']"
    by (simp add: status_texts_def status_of_def)
  with es have "status_texts es = status_texts (butlast es) @ [''Ready to work'']"
    by simp
  with check_queue_shows [of g es] show ?thesis
    by simp
qed

text \<open>
  Claim C1. Whatever the outside world does during a job (success, failure of any
  call, cancellation at any read of the flag), the worker puts exactly one
  \<open>finished\<close> event, and it is the last event of the job. The events are appended to
  the queue in emission order and each of them reaches a handler of \<open>check_queue\<close>:
  it is shown once, as a line of the log text, as a dialog, or as a text of the
  status label. Under every interleaving of the worker's puts with the interactive
  thread's gets the interface is in the state reached by handling a prefix of the
  job's events in emission order: its log text holds the log messages of that prefix
  in order, its dialogs are those of the error and success events of the prefix in
  order, its status is the last status of the prefix, and the job is shown as
  running, with the controls in their running state, until the last event, which is
  \<open>finished\<close>, has been taken. Handling what is still queued or pending leads to the
  state reached by handling all the events in order.
\<close>

theorem finished_once_last_and_in_order:
  "length (filter is_finished (emitted w s q files)) = 1
   \<and> last (emitted w s q files) = (''finished'', None)
   \<and> result_queue (transcription_worker w s q files) = q @ emitted w s q files
   \<and> list_all dispatched (emitted w s q files)
   \<and> ui (run_schedule ms (initial_channel (emitted w s q files) g))
       = check_queue g (take (taken (emitted w s q files)
                                (run_schedule ms (initial_channel (emitted w s q files) g)))
                             (emitted w s q files))
   \<and> channel (run_schedule ms (initial_channel (emitted w s q files) g))
       @ pending (run_schedule ms (initial_channel (emitted w s q files) g))
       = drop (taken (emitted w s q files)
                 (run_schedule ms (initial_channel (emitted w s q files) g)))
              (emitted w s q files)
   \<and> check_queue (ui (run_schedule ms (initial_channel (emitted w s q files) g)))
        (channel (run_schedule ms (initial_channel (emitted w s q files) g))
         @ pending (run_schedule ms (initial_channel (emitted w s q files) g)))
       = check_queue g (emitted w s q files)
   \<and> length (log_messages (emitted w s q files))
       + length (dialog_entries (emitted w s q files))
       + length (status_texts (emitted w s q files))
       = length (emitted w s q files)
   \<and> log_text (ui (run_schedule ms (initial_channel (emitted w s q files) g)))
       = log_text g
         @ log_block (log_messages
             (take (taken (emitted w s q files)
                      (run_schedule ms (initial_channel (emitted w s q files) g)))
                   (emitted w s q files)))
   \<and> dialogs (ui (run_schedule ms (initial_channel (emitted w s q files) g)))
       = dialogs g
         @ dialog_entries
             (take (taken (emitted w s q files)
                      (run_schedule ms (initial_channel (emitted w s q files) g)))
                   (emitted w s q files))
   \<and> status_label (ui (run_schedule ms (initial_channel (emitted w s q files) g)))
       = last (status_label g
               # status_texts
                   (take (taken (emitted w s q files)
                            (run_schedule ms (initial_channel (emitted w s q files) g)))
                         (emitted w s q files)))
   \<and> is_transcribing (ui (run_schedule ms (initial_channel (emitted w s q files) g)))
       = (is_transcribing g
          \<and> taken (emitted w s q files)
                (run_schedule ms (initial_channel (emitted w s q files) g))
              < length (emitted w s q files))
   \<and> start_button_enabled (ui (run_schedule ms (initial_channel (emitted w s q files) g)))
       = (start_button_enabled g
          \<or> length (emitted w s q files)
              \<le> taken (emitted w s q files)
                   (run_schedule ms (initial_channel (emitted w s q files) g)))
   \<and> stop_button_enabled (ui (run_schedule ms (initial_channel (emitted w s q files) g)))
       = (stop_button_enabled g
          \<and> taken (emitted w s q files)
                (run_schedule ms (initial_channel (emitted w s q files) g))
              < length (emitted w s q files))
   \<and> progress_running (ui (run_schedule ms (initial_channel (emitted w s q files) g)))
       = (progress_running g
          \<and> taken (emitted w s q files)
                (run_schedule ms (initial_channel (emitted w s q files) g))
              < length (emitted w s q files))
   \<and> status_label (check_queue g (emitted w s q files)) = ''Ready to work''
   \<and> \<not> is_transcribing (check_queue g (emitted w s q files))"
proof -
  let ?E = "emitted w s q files"
  let ?C = "run_schedule ms (initial_channel ?E g)"
  let ?K = "taken ?E ?C"
  let ?r = "fst (worker_body w s (job_start q files))"
  let ?err = "case ?r of Raise e \<Rightarrow> error_events e | _ \<Rightarrow> []"
  have err_fin: "filter is_finished ?err = []"
    by (cases ?r) (simp_all add: error_events_def is_finished_def)
  have err_disp: "list_all dispatched ?err"
    by (cases ?r) (simp_all add: error_events_def dispatched_def)
  have count: "length (filter is_finished ?E) = 1"
    by (simp add: emitted_decomposition filter_plain_finished body_events_plain
          cleanup_events_plain err_fin is_finished_def)
  have lst: "last ?E = (''finished'', None)"
    by (simp add: emitted_decomposition)
  have ne: "?E \<noteq> []"
    by (simp add: emitted_decomposition)
  have whole: "result_queue (transcription_worker w s q files) = q @ ?E"
  proof -
    obtain r st1 where b: "worker_body w s (job_start q files) = (r, st1)"
      by force
    have "result_queue st1 = q @ body_events w s q files"
      using body_events_eq [of w s q files] b by simp
    then show ?thesis
      by (cases r)
         (simp_all add: emitted_def transcription_worker_def b put_def cleanup_queue
            report_error_queue)
  qed
  have disp: "list_all dispatched ?E"
    using list_all_plain_dispatched [OF body_events_plain [of w s q files]]
      list_all_plain_dispatched
        [OF cleanup_events_plain [of w "snd (worker_body w s (job_start q files))"]] err_disp
    by (simp add: emitted_decomposition dispatched_def)
  note shown = all_dispatched_shown [OF disp]
  note tk = run_schedule_taken [of ms ?E g]
  from tk have u: "ui ?C = check_queue g (take ?K ?E)"
    by (rule conjunct1)
  note cq = check_queue_shows [of g "take ?K ?E", folded u]
  note fin = finished_only_last [OF count lst ne, of ?K]
  have lg: "log_text (ui ?C) = log_text g @ log_block (log_messages (take ?K ?E))"
    and dl: "dialogs (ui ?C) = dialogs g @ dialog_entries (take ?K ?E)"
    and sl: "status_label (ui ?C) = last (status_label g # status_texts (take ?K ?E))"
    using cq by blast+
  have tr: "is_transcribing (ui ?C) = (is_transcribing g \<and> ?K < length ?E)"
    and sb: "start_button_enabled (ui ?C) = (start_button_enabled g \<or> length ?E \<le> ?K)"
    and pb: "stop_button_enabled (ui ?C) = (stop_button_enabled g \<and> ?K < length ?E)"
    and pr: "progress_running (ui ?C) = (progress_running g \<and> ?K < length ?E)"
    using cq fin by (simp_all add: not_le)
  have rw: "status_label (check_queue g ?E) = ''Ready to work''"
    using lst ne by (rule status_after_finished)
  have nt: "\<not> is_transcribing (check_queue g ?E)"
    using check_queue_shows [of g ?E] finished_only_last [OF count lst ne, of "length ?E"]
    by simp
  show ?thesis
    by (intro conjI count lst whole disp shown lg dl sl tr sb pb pr rw nt
          tk [THEN conjunct1] tk [THEN conjunct2] run_schedule_remaining)
qed


lemma failing_world_events:
  "emitted failing_world video_job [] no_files =
     [(''status'', Some ''Extracting audio from video...''),
      (''log'', Some ''Extracting audio from video: interview.mp4''),
      (''log'', Some ''Audio extracted successfully''),
      (''status'', Some ''Loading model...''),
      (''log'', Some ''Loading model: tiny''),
      (''error'', Some ''An error occurred: model.bin is corrupt''),
      (''log'', Some ''ERROR: An error occurred: model.bin is corrupt''),
      (''log'', Some ''Warning: Could not delete temporary file: file is in use''),
      (''finished'', None)]"
  by (simp add: worker_defs example_defs example_facts Let_def)

theorem finished_once_last_and_in_order_witness:
  "length (filter is_finished (emitted stop_after_three audio_job [] no_files)) = 1
   \<and> last (emitted stop_after_three audio_job [] no_files) = (''finished'', None)
   \<and> taken (emitted stop_after_three audio_job [] no_files)
        (run_schedule [WorkerPut, WorkerPut, PumpGet, WorkerPut, PumpGet]
           (initial_channel (emitted stop_after_three audio_job [] no_files) busy_gui)) = 2
   \<and> status_label
        (ui (run_schedule [WorkerPut, WorkerPut, PumpGet, WorkerPut, PumpGet]
               (initial_channel (emitted stop_after_three audio_job [] no_files) busy_gui)))
       = ''Loading model...''
   \<and> log_text
        (ui (run_schedule [WorkerPut, WorkerPut, PumpGet, WorkerPut, PumpGet]
               (initial_channel (emitted stop_after_three audio_job [] no_files) busy_gui)))
       = log_block [''Loading model: tiny'']
   \<and> is_transcribing
        (ui (run_schedule [WorkerPut, WorkerPut, PumpGet, WorkerPut, PumpGet]
               (initial_channel (emitted stop_after_three audio_job [] no_files) busy_gui)))
   \<and> is_transcribing busy_gui
   \<and> status_label busy_gui = ''Transcribing...''
   \<and> taken (emitted failing_world video_job [] no_files)
        (run_schedule (replicate 9 WorkerPut @ replicate 9 PumpGet)
           (initial_channel (emitted failing_world video_job [] no_files) busy_gui)) = 9
   \<and> log_text
        (ui (run_schedule (replicate 9 WorkerPut @ replicate 9 PumpGet)
               (initial_channel (emitted failing_world video_job [] no_files) busy_gui)))
       = log_block
           [''Extracting audio from video: interview.mp4'',
            ''Audio extracted successfully'',
            ''Loading model: tiny'',
            ''ERROR: An error occurred: model.bin is corrupt'',
            ''Warning: Could not delete temporary file: file is in use'']
   \<and> dialogs
        (ui (run_schedule (replicate 9 WorkerPut @ replicate 9 PumpGet)
               (initial_channel (emitted failing_world video_job [] no_files) busy_gui)))
       = [(''showerror'', ''Error'', ''An error occurred: model.bin is corrupt'')]
   \<and> status_label
        (ui (run_schedule (replicate 9 WorkerPut @ replicate 9 PumpGet)
               (initial_channel (emitted failing_world video_job [] no_files) busy_gui)))
       = ''Ready to work''
   \<and> \<not> is_transcribing
        (ui (run_schedule (replicate 9 WorkerPut @ replicate 9 PumpGet)
               (initial_channel (emitted failing_world video_job [] no_files) busy_gui)))
   \<and> start_button_enabled
        (ui (run_schedule (replicate 9 WorkerPut @ replicate 9 PumpGet)
               (initial_channel (emitted failing_world video_job [] no_files) busy_gui)))
   \<and> \<not> start_button_enabled busy_gui"
proof -
  let ?E1 = "emitted stop_after_three audio_job [] no_files"
  let ?C1 = "run_schedule [WorkerPut, WorkerPut, PumpGet, WorkerPut, PumpGet]
               (initial_channel ?E1 busy_gui)"
  let ?E2 = "emitted failing_world video_job [] no_files"
  let ?C2 = "run_schedule (replicate 9 WorkerPut @ replicate 9 PumpGet)
               (initial_channel ?E2 busy_gui)"
  have r9: "replicate 9 x = [x, x, x, x, x, x, x, x, x]" for x :: move
    by (simp add: numeral_eq_Suc)
  have t1: "taken ?E1 ?C1 = 2"
    by (simp add: stop_after_three_events run_schedule_def initial_channel_def taken_def)
  have t2: "taken ?E2 ?C2 = 9"
    by (simp add: failing_world_events run_schedule_def initial_channel_def taken_def r9)
  have l1: "length ?E1 = 8" "length ?E2 = 9"
    by (simp_all add: stop_after_three_events failing_world_events)
  have p1: "log_messages (take 2 ?E1) = [''Loading model: tiny'']"
    "status_texts (take 2 ?E1) = [''Loading model...'']"
    by (simp_all add: stop_after_three_events log_messages_def status_texts_def
          log_message_of_def status_of_def)
  have p2: "log_messages (take 9 ?E2) =
          [''Extracting audio from video: interview.mp4'',
            ''Audio extracted successfully'',
            ''Loading model: tiny'',
            ''ERROR: An error occurred: model.bin is corrupt'',
            ''Warning: Could not delete temporary file: file is in use'']"
    "dialog_entries (take 9 ?E2)
       = [(''showerror'', ''Error'', ''An error occurred: model.bin is corrupt'')]"
    "status_texts (take 9 ?E2)
       = [''Extracting audio from video...'', ''Loading model...'', ''Ready to work'']"
    by (simp_all add: failing_world_events log_messages_def status_texts_def dialog_entries_def
          log_message_of_def status_of_def dialog_of_def)
  have b: "is_transcribing busy_gui" "status_label busy_gui = ''Transcribing...''"
    "\<not> start_button_enabled busy_gui" "log_text busy_gui = []" "dialogs busy_gui = []"
    by (simp_all add: busy_gui_def idle_gui_def)
  note a1 = finished_once_last_and_in_order
    [of stop_after_three audio_job "[]" no_files
       "[WorkerPut, WorkerPut, PumpGet, WorkerPut, PumpGet]" busy_gui, unfolded t1 l1 p1]
  note a2 = finished_once_last_and_in_order
    [of failing_world video_job "[]" no_files
       "replicate 9 WorkerPut @ replicate 9 PumpGet" busy_gui, unfolded t2 l1 p2]
  have c1: "length (filter is_finished ?E1) = 1"
    and c2: "last ?E1 = (''finished'', None)"
    and s1: "status_label (ui ?C1) = last (status_label busy_gui # [''Loading model...''])"
    and g1: "log_text (ui ?C1) = log_text busy_gui @ log_block [''Loading model: tiny'']"
    and r1: "is_transcribing (ui ?C1) = (is_transcribing busy_gui \<and> 2 < (8::nat))"
    by (insert a1, elim conjE, assumption)+
  have g2: "log_text (ui ?C2) = log_text busy_gui @ log_block
           [''Extracting audio from video: interview.mp4'',
            ''Audio extracted successfully'',
            ''Loading model: tiny'',
            ''ERROR: An error occurred: model.bin is corrupt'',
            ''Warning: Could not delete temporary file: file is in use'']"
    and d2: "dialogs (ui ?C2) = dialogs busy_gui
           @ [(''showerror'', ''Error'', ''An error occurred: model.bin is corrupt'')]"
    and s2: "status_label (ui ?C2) = last (status_label busy_gui
           # [''Extracting audio from video...'', ''Loading model...'', ''Ready to work''])"
    and r2: "is_transcribing (ui ?C2) = (is_transcribing busy_gui \<and> 9 < (9::nat))"
    and e2: "start_button_enabled (ui ?C2) = (start_button_enabled busy_gui \<or> (9::nat) \<le> 9)"
    by (insert a2, elim conjE, assumption)+
  show ?thesis
    unfolding t1 t2 c1 c2 s1 g1 r1 g2 d2 s2 r2 e2
    using b by simp
qed

section \<open>Failures inside the worker\<close>

lemma failing_world_body:
  "fst (worker_body failing_world video_job (job_start [] no_files))
     = Raise (OtherError ''model.bin is corrupt'')"
  "temp_audio_path (snd (worker_body failing_world video_job (job_start [] no_files)))
     = Some ''/tmp/tmpab12.wav''"
  "fs (snd (worker_body failing_world video_job (job_start [] no_files))) ''/tmp/tmpab12.wav''
     = Some ''RIFF-WAVE''"
  "body_events failing_world video_job [] no_files =
     [(''status'', Some ''Extracting audio from video...''),
      (''log'', Some ''Extracting audio from video: interview.mp4''),
      (''log'', Some ''Audio extracted successfully''),
      (''status'', Some ''Loading model...''),
      (''log'', Some ''Loading model: tiny'')]"
  by (simp_all add: body_events_def worker_defs example_defs example_facts Let_def)

text \<open>
  The outer handler and the \<open>finally\<close> block. The events of a job are those of the
  \<open>try\<close> body, then, exactly when the body raised, one \<open>error\<close> event with the
  message \<open>An error occurred: \<close> followed by the text of the exception and one log
  line repeating it, then the event of the removal in the \<open>finally\<close> block, then
  \<open>finished\<close>. No stage and no removal puts an \<open>error\<close> event of its own, so a job
  has one \<open>error\<close> event if the body raised and none otherwise. When the removal in
  the \<open>finally\<close> block fails, it puts a warning log line and nothing else.
  \<open>transcription_worker\<close> has no exceptional result: every raise of the model lies
  inside the body or inside the guarded removal.
\<close>

theorem failure_reported_once_then_finished:
  "emitted w s q files =
     body_events w s q files
     @ (case fst (worker_body w s (job_start q files)) of
          Raise e \<Rightarrow> error_events e
        | _ \<Rightarrow> [])
     @ cleanup_events w (snd (worker_body w s (job_start q files)))
     @ [(''finished'', None)]
   \<and> list_all plain (body_events w s q files)
   \<and> list_all plain (cleanup_events w (snd (worker_body w s (job_start q files))))
   \<and> filter is_error (emitted w s q files) =
       (case fst (worker_body w s (job_start q files)) of
          Raise e \<Rightarrow> [(''error'', Some (''An error occurred: '' @ str_exn e))]
        | _ \<Rightarrow> [])
   \<and> (temp_audio_path (snd (worker_body w s (job_start q files))) = Some p \<and> p \<noteq> []
        \<and> fs (snd (worker_body w s (job_start q files))) p \<noteq> None
        \<and> os_unlink w p = Some e'
      \<longrightarrow> cleanup_events w (snd (worker_body w s (job_start q files)))
            = [(''log'', Some (''Warning: Could not delete temporary file: '' @ str_exn e'))])"
proof -
  let ?r = "fst (worker_body w s (job_start q files))"
  let ?st = "snd (worker_body w s (job_start q files))"
  have "filter is_error (case ?r of Raise e \<Rightarrow> error_events e | _ \<Rightarrow> [])
        = (case ?r of Raise e \<Rightarrow> [(''error'', Some (''An error occurred: '' @ str_exn e))]
           | _ \<Rightarrow> [])"
    by (cases ?r) (simp_all add: error_events_def is_error_def)
  then have "filter is_error (emitted w s q files) =
       (case ?r of Raise e \<Rightarrow> [(''error'', Some (''An error occurred: '' @ str_exn e))]
        | _ \<Rightarrow> [])"
    by (simp add: emitted_decomposition filter_plain_error body_events_plain
          cleanup_events_plain is_error_def)
  moreover have "cleanup_events w ?st
            = [(''log'', Some (''Warning: Could not delete temporary file: '' @ str_exn e'))]"
    if "temp_audio_path ?st = Some p" "p \<noteq> []" "fs ?st p \<noteq> None" "os_unlink w p = Some e'"
    using that by (simp add: cleanup_events_def)
  ultimately show ?thesis
    using emitted_decomposition [of w s q files] body_events_plain [of w s q files]
      cleanup_events_plain [of w ?st]
    by blast
qed

theorem failure_reported_once_then_finished_witness:
  "temp_audio_path (snd (worker_body failing_world video_job (job_start [] no_files)))
     = Some ''/tmp/tmpab12.wav''
   \<and> ''/tmp/tmpab12.wav'' \<noteq> []
   \<and> fs (snd (worker_body failing_world video_job (job_start [] no_files))) ''/tmp/tmpab12.wav''
       \<noteq> None
   \<and> os_unlink failing_world ''/tmp/tmpab12.wav'' = Some (OtherError ''file is in use'')
   \<and> emitted failing_world video_job [] no_files =
       [(''status'', Some ''Extracting audio from video...''),
        (''log'', Some ''Extracting audio from video: interview.mp4''),
        (''log'', Some ''Audio extracted successfully''),
        (''status'', Some ''Loading model...''),
        (''log'', Some ''Loading model: tiny''),
        (''error'', Some ''An error occurred: model.bin is corrupt''),
        (''log'', Some ''ERROR: An error occurred: model.bin is corrupt''),
        (''log'', Some ''Warning: Could not delete temporary file: file is in use''),
        (''finished'', None)]
   \<and> filter is_error (emitted failing_world video_job [] no_files) =
       [(''error'', Some ''An error occurred: model.bin is corrupt'')]"
proof -
  have u: "os_unlink failing_world ''/tmp/tmpab12.wav'' = Some (OtherError ''file is in use'')"
    by (simp add: failing_world_def calm_world_def)
  from failure_reported_once_then_finished
    [of failing_world video_job "[]" no_files "''/tmp/tmpab12.wav''" "OtherError ''file is in use''"]
  show ?thesis
    by (simp add: failing_world_body u error_events_def is_error_def)
qed

text \<open>
  Claim C2 fails for the removal made by \<open>extract_audio_from_video\<close> itself. Its
  handler calls \<open>os.unlink\<close> without a guard, whereas the \<open>finally\<close> block of the
  worker guards the same call and logs a warning. When the clip has no audio track
  and the removal raises, the exception of the removal replaces the extraction
  error and is reported as the error of the job; no warning is logged, and because
  \<open>temp_audio_path\<close> was never assigned the \<open>finally\<close> block leaves the file on
  disk.
\<close>

theorem extraction_cleanup_failure_escalates:
  "is_video_file (os_path unlink_fails_world) (audio_file video_job)
   \<and> video_file_clip unlink_fails_world (audio_file video_job) = Inr False
   \<and> os_unlink unlink_fails_world temp_wav = Some (OtherError ''file is in use'')
   \<and> emitted unlink_fails_world video_job [] no_files =
       [(''status'', Some ''Extracting audio from video...''),
        (''log'', Some ''Extracting audio from video: interview.mp4''),
        (''error'', Some ''An error occurred: file is in use''),
        (''log'', Some ''ERROR: An error occurred: file is in use''),
        (''finished'', None)]
   \<and> temp_audio_path (transcription_worker unlink_fails_world video_job [] no_files) = None
   \<and> fs (transcription_worker unlink_fails_world video_job [] no_files) temp_wav = Some []
   \<and> calls (transcription_worker unlink_fails_world video_job [] no_files) =
       [CallVideoFileClip ''interview.mp4'', CallUnlink temp_wav]"
  by (simp add: worker_defs example_defs example_facts temp_wav_def Let_def)

section \<open>The segment loop\<close>

lemma written_text_simps [simp]:
  "written_text [] = []"
  "written_text (t # ts) = strip t @ [newline] @ written_text ts"
  by (simp_all add: written_text_def)






lemma three_lines:
  "written_text ['' one'', '' two'', '' three''] = ''one\<newline>two\<newline>three\<newline>''"
  by (simp add: text_defs)


section \<open>Truncation of the output file\<close>

lemma silent_stop_prepare:
  "fst (prepare silent_stop_world audio_job (job_start [] old_files)) = Next []"
  "flag_reads (snd (prepare silent_stop_world audio_job (job_start [] old_files))) = 3"
  by (simp_all add: worker_defs example_defs example_facts Let_def)

lemma silent_stop_events:
  "emitted silent_stop_world audio_job [] old_files =
     [(''status'', Some ''Loading model...''),
      (''log'', Some ''Loading model: tiny''),
      (''status'', Some ''Transcribing...''),
      (''log'', Some ''Starting transcription of file: talk.mp3''),
      (''log'', Some ''Detected language: en (probability: 0.98)''),
      (''log'', Some ''Approximate duration: 12.50 seconds''),
      (''finished'', None)]"
  by (simp add: worker_defs example_defs example_facts Let_def)

lemma silent_stop_file:
  "fs (transcription_worker silent_stop_world audio_job [] old_files) ''out.txt'' = Some []"
  by (simp add: worker_defs example_defs example_facts Let_def)

text \<open>
  The claim C10 as stated fails when the model yields no segment: the loop body, and
  with it the read of the flag and the stop log, is never reached. In the world
  below the job reaches the segment-writing stage with an empty sequence, the flag
  is set when the stage begins, the earlier transcript is truncated to an empty
  file, and the job ends with \<open>finished\<close> without a stop log.
\<close>

theorem stop_log_at_loop_start_counterexample:
  "fst (prepare silent_stop_world audio_job (job_start [] old_files)) = Next []
   \<and> stop_flag_is_set silent_stop_world
        (flag_reads (snd (prepare silent_stop_world audio_job (job_start [] old_files))))
   \<and> old_files ''out.txt'' = Some ''old transcript''
   \<and> fs (transcription_worker silent_stop_world audio_job [] old_files) ''out.txt'' = Some []
   \<and> stop_log \<notin> set (emitted silent_stop_world audio_job [] old_files)
   \<and> last (emitted silent_stop_world audio_job [] old_files) = (''finished'', None)"
  by (simp add: silent_stop_prepare silent_stop_events silent_stop_file stop_log_def)
     (simp add: silent_stop_world_def calm_world_def old_files_def)

lemma write_segments_truncates:
  assumes "open_output w out = None"
  shows "write_segments w segments out (st\<lparr>fs := (fs st)(out \<mapsto> old)\<rparr>)
           = write_segments w segments out st"
  using assms by (simp add: write_segments_def called_def)

lemma stream_stopped_at_start:
  assumes "open_output w out = None"
    and "stop_flag_is_set w (flag_reads st)" and "stop_flag_is_set w (Suc (flag_reads st))"
  shows "fs (snd (stream w out (Yield t # rest) st)) out = Some []"
    and "temp_audio_path (snd (stream w out (Yield t # rest) st)) = temp_audio_path st"
    and "result_queue (snd (stream w out (Yield t # rest) st)) = result_queue st @ [stop_log]"
    and "fst (stream w out (Yield t # rest) st)
           = (case file_close w of Some e \<Rightarrow> Raise e | None \<Rightarrow> Next ())"
  using assms
  by (cases "file_close w";
      simp add: stream_def write_segments_def called_def is_set_def put_def and_then_def
        report_completion_def stop_log_def Let_def)+

text \<open>
  Claim C10, amended. When the output file opens, \<open>write_segments\<close> behaves the same
  whatever the path held before: the earlier content is discarded before the loop
  starts. If the job reaches the segment-writing stage with a sequence whose first
  item is a segment, and the flag is set at the first read of the stage (and stays
  set), then after the body the output file exists and is empty, and the job's
  events are those put before the stage, the stop log, the error events if closing
  the file fails, the event of the cleanup, and \<open>finished\<close>.
\<close>

theorem truncating_open_and_stop_at_loop_start:
  assumes "open_output w (output_file s) = None"
  shows "write_segments w segments (output_file s) (st0\<lparr>fs := (fs st0)(output_file s \<mapsto> old)\<rparr>)
           = write_segments w segments (output_file s) st0
       \<and> (prepare w s (job_start q files) = (Next (Yield t # rest), st)
            \<and> stop_flag_is_set w (flag_reads st) \<and> stop_flag_is_set w (Suc (flag_reads st))
          \<longrightarrow> fs (snd (worker_body w s (job_start q files))) (output_file s) = Some []
              \<and> emitted w s q files =
                  drop (length q) (result_queue st) @ [stop_log]
                  @ (case file_close w of Some e \<Rightarrow> error_events e | None \<Rightarrow> [])
                  @ cleanup_events w (snd (worker_body w s (job_start q files)))
                  @ [(''finished'', None)])"
proof -
  have "fs (snd (worker_body w s (job_start q files))) (output_file s) = Some []
        \<and> emitted w s q files =
            drop (length q) (result_queue st) @ [stop_log]
            @ (case file_close w of Some e \<Rightarrow> error_events e | None \<Rightarrow> [])
            @ cleanup_events w (snd (worker_body w s (job_start q files)))
            @ [(''finished'', None)]"
    if p: "prepare w s (job_start q files) = (Next (Yield t # rest), st)"
      and f: "stop_flag_is_set w (flag_reads st)" "stop_flag_is_set w (Suc (flag_reads st))"
  proof -
    have wb: "worker_body w s (job_start q files) = stream w (output_file s) (Yield t # rest) st"
      by (simp add: worker_body_def p and_then_def)
    note st = stream_stopped_at_start [OF assms f, of t rest]
    from grows_prepare [of "job_start q files" w s] p
    obtain es where es: "result_queue st = q @ es"
      by (auto simp: grows_def job_start_def)
    have be: "body_events w s q files = drop (length q) (result_queue st) @ [stop_log]"
      by (simp add: body_events_def wb st(3) es)
    have r: "(case fst (worker_body w s (job_start q files)) of Raise e \<Rightarrow> error_events e | _ \<Rightarrow> [])
             = (case file_close w of Some e \<Rightarrow> error_events e | None \<Rightarrow> [])"
      by (simp add: wb st(4) split: option.splits)
    show ?thesis
      using emitted_decomposition [of w s q files]
      by (simp add: be r) (simp add: wb st(1))
  qed
  with write_segments_truncates [OF assms] show ?thesis
    by blast
qed

lemma early_stop_prepare:
  "fst (prepare early_stop_world audio_job (job_start [] old_files)) = Next ten_segments"
  "flag_reads (snd (prepare early_stop_world audio_job (job_start [] old_files))) = 3"
  "temp_audio_path (snd (prepare early_stop_world audio_job (job_start [] old_files))) = None"
  "result_queue (snd (prepare early_stop_world audio_job (job_start [] old_files))) =
     [(''status'', Some ''Loading model...''),
      (''log'', Some ''Loading model: tiny''),
      (''status'', Some ''Transcribing...''),
      (''log'', Some ''Starting transcription of file: talk.mp3''),
      (''log'', Some ''Detected language: en (probability: 0.98)''),
      (''log'', Some ''Approximate duration: 12.50 seconds'')]"
  by (simp_all add: worker_defs calm_world_def audio_job_def early_stop_world_def old_files_def
        no_files_def example_info_def example_facts Let_def)



lemma early_stop_io: "open_output early_stop_world (output_file audio_job) = None"
    "file_close early_stop_world = None" "output_file audio_job = ''out.txt''"
    by (simp_all add: early_stop_world_def calm_world_def audio_job_def)

lemma ten_segments_cons: "ten_segments = Yield '' one'' # map Yield (tl ten_texts)"
    by (simp add: ten_segments_def ten_texts_def)

lemma early_stop_reaches: "prepare early_stop_world audio_job (job_start [] old_files)
           = (Next (Yield '' one'' # map Yield (tl ten_texts)),
              snd (prepare early_stop_world audio_job (job_start [] old_files)))"
proof -
  have "fst (prepare early_stop_world audio_job (job_start [] old_files))
        = Next (Yield '' one'' # map Yield (tl ten_texts))"
    by (simp only: early_stop_prepare(1) ten_segments_cons)
  then show ?thesis
    by (simp only: prod_eq_iff fst_conv snd_conv simp_thms)
qed

lemma early_stop_flag: "stop_flag_is_set early_stop_world (flag_reads (snd (prepare early_stop_world audio_job (job_start [] old_files))))"
    "stop_flag_is_set early_stop_world (Suc (flag_reads (snd (prepare early_stop_world audio_job (job_start [] old_files)))))"
    unfolding early_stop_prepare(2) by (simp_all add: early_stop_world_def calm_world_def)

lemma early_stop_temp: "temp_audio_path (snd (worker_body early_stop_world audio_job (job_start [] old_files)))
            = None"
proof -
  have "worker_body early_stop_world audio_job (job_start [] old_files)
        = stream early_stop_world (output_file audio_job) (Yield '' one'' # map Yield (tl ten_texts))
            (snd (prepare early_stop_world audio_job (job_start [] old_files)))"
    unfolding worker_body_def by (subst early_stop_reaches) (simp only: and_then_def prod.case ctl.case)
  then show ?thesis
    by (simp only: stream_stopped_at_start(2) [OF early_stop_io(1) early_stop_flag] early_stop_prepare(3))
qed

lemma early_stop_cleanup: "cleanup_events early_stop_world
              (snd (worker_body early_stop_world audio_job (job_start [] old_files))) = []"
  by (simp add: cleanup_events_def early_stop_temp)

theorem truncating_open_and_stop_at_loop_start_witness:
  "open_output early_stop_world (output_file audio_job) = None
   \<and> old_files ''out.txt'' = Some ''old transcript''
   \<and> fs (snd (worker_body early_stop_world audio_job (job_start [] old_files))) ''out.txt''
       = Some []
   \<and> emitted early_stop_world audio_job [] old_files =
       [(''status'', Some ''Loading model...''),
        (''log'', Some ''Loading model: tiny''),
        (''status'', Some ''Transcribing...''),
        (''log'', Some ''Starting transcription of file: talk.mp3''),
        (''log'', Some ''Detected language: en (probability: 0.98)''),
        (''log'', Some ''Approximate duration: 12.50 seconds''),
        (''log'', Some ''Transcription stopped by user''),
        (''finished'', None)]"
proof -
  let ?st = "snd (prepare early_stop_world audio_job (job_start [] old_files))"
  have old: "old_files ''out.txt'' = Some ''old transcript''"
    by (simp add: old_files_def)
  have "prepare early_stop_world audio_job (job_start [] old_files)
          = (Next (Yield '' one'' # map Yield (tl ten_texts)), ?st)
        \<and> stop_flag_is_set early_stop_world (flag_reads ?st)
        \<and> stop_flag_is_set early_stop_world (Suc (flag_reads ?st))"
    using early_stop_reaches early_stop_flag by (intro conjI)
  note h = truncating_open_and_stop_at_loop_start
    [OF early_stop_io(1), where q = "[]" and files = old_files and t = "'' one''"
       and rest = "map Yield (tl ten_texts)" and st = ?st and segments = "[]"
       and ?st0.0 = ?st and old = "[]", THEN conjunct2, THEN mp, OF this]
  have "fs (snd (worker_body early_stop_world audio_job (job_start [] old_files)))
          (output_file audio_job) = Some []
        \<and> emitted early_stop_world audio_job [] old_files =
            drop (length ([]::event list)) (result_queue ?st) @ [stop_log]
            @ (case file_close early_stop_world of Some e \<Rightarrow> error_events e | None \<Rightarrow> [])
            @ cleanup_events early_stop_world
                (snd (worker_body early_stop_world audio_job (job_start [] old_files)))
            @ [(''finished'', None)]"
    by (rule h)
  then show ?thesis
    unfolding early_stop_cleanup early_stop_io early_stop_prepare(4) stop_log_def
    using old early_stop_io by simp
qed

section \<open>Classification by extension\<close>

lemma takeWhile_absent: "c \<notin> set xs \<Longrightarrow> takeWhile (\<lambda>x. x \<noteq> c) xs = xs"
  by (induction xs) auto

lemma rfind_eq: "rfind c p = int (length p) - 1 - int (length (takeWhile (\<lambda>x. x \<noteq> c) (rev p)))"
  by (cases "c \<in> set p") (simp_all add: rfind_def takeWhile_absent)

lemma takeWhile_absent_append:
  "c \<notin> set xs \<Longrightarrow> takeWhile (\<lambda>x. x \<noteq> c) (xs @ ys) = xs @ takeWhile (\<lambda>x. x \<noteq> c) ys"
  by (induction xs) auto

lemma rfind_last: "c \<notin> set b \<Longrightarrow> rfind c (a @ c # b) = int (length a)"
  by (simp add: rfind_eq takeWhile_absent_append)

lemma rfind_ge: "- 1 \<le> rfind c p"
proof -
  have "length (takeWhile (\<lambda>x. x \<noteq> c) (rev p)) \<le> length (rev p)"
    by (rule length_takeWhile_le)
  then show ?thesis by (simp add: rfind_eq)
qed

lemma rfind_append_absent: "c \<notin> set b \<Longrightarrow> rfind c (a @ b) = rfind c a"
  by (simp add: rfind_eq takeWhile_absent_append)

lemma rfind_less: "rfind c p < int (length p)"
  by (simp add: rfind_eq)

lemma rfind_after: "c \<in> set b \<Longrightarrow> int (length a) < rfind c (a @ x # b)"
proof -
  assume "c \<in> set b"
  then obtain b1 b2 where b: "b = b1 @ c # b2" "c \<notin> set b2"
    by (meson split_list_last)
  have "rfind c ((a @ x # b1) @ c # b2) = int (length (a @ x # b1))"
    using b(2) by (rule rfind_last)
  with b(1) show ?thesis by simp
qed

text \<open>The index after the last separator, as \<open>_splitext\<close> computes it.\<close>

lemma takeWhile_two:
  "length (takeWhile (\<lambda>x. x \<noteq> a \<and> x \<noteq> b) xs)
     = min (length (takeWhile (\<lambda>x. x \<noteq> a) xs)) (length (takeWhile (\<lambda>x. x \<noteq> b) xs))"
  by (induction xs) auto

lemma basename_drop:
  "basename pf s =
     drop (nat ((case altsep pf of None \<Rightarrow> rfind (sep pf) s
                 | Some a \<Rightarrow> max (rfind (sep pf) s) (rfind a s)) + 1)) s"
proof -
  have tw: "rev (takeWhile P (rev s)) = drop (length s - length (takeWhile P (rev s))) s" for P
  proof -
    have "takeWhile P (rev s) = take (length (takeWhile P (rev s))) (rev s)"
      by (metis takeWhile_eq_take)
    then have "rev (takeWhile P (rev s)) = rev (take (length (takeWhile P (rev s))) (rev s))"
      by simp
    also have "\<dots> = drop (length s - length (takeWhile P (rev s))) s"
      by (simp add: rev_take)
    finally show ?thesis .
  qed
  have le: "length (takeWhile P (rev s)) \<le> length s" for P
    using length_takeWhile_le [of P "rev s"] by simp
  show ?thesis
  proof (cases pf)
    case Posix
    have "(\<lambda>c. \<not> is_sep Posix c) = (\<lambda>x. x \<noteq> CHR ''/'')"
      by (simp add: is_sep_def fun_eq_iff)
    with Posix show ?thesis
      using le [of "\<lambda>x. x \<noteq> CHR ''/''"]
      by (simp add: basename_def tw rfind_eq nat_diff_distrib' of_nat_diff)
  next
    case Windows
    have "(\<lambda>c. \<not> is_sep Windows c) = (\<lambda>x. x \<noteq> backslash \<and> x \<noteq> CHR ''/'')"
      by (auto simp: is_sep_def fun_eq_iff)
    with Windows show ?thesis
      using le [of "\<lambda>x. x \<noteq> CHR ''/''"] le [of "\<lambda>x. x \<noteq> backslash"]
      by (simp add: basename_def tw rfind_eq takeWhile_two nat_diff_distrib' of_nat_diff
            max_def min_def)
  qed
qed

lemma skip_leading_dots_eq:
  "i \<le> d \<Longrightarrow> d \<le> length p \<Longrightarrow>
   skip_leading_dots p i d =
     (if all_dots (take (d - i) (drop i p)) then (p, []) else (take d p, drop d p))"
proof (induction p i d rule: skip_leading_dots.induct)
  case (1 p i d)
  show ?case
  proof (cases "i < d")
    case False
    with "1.prems" show ?thesis
      by (subst skip_leading_dots.simps) (simp add: all_dots_def)
  next
    case True
    with "1.prems" have sl: "take (d - i) (drop i p) = p ! i # take (d - Suc i) (drop (Suc i) p)"
      by (metis Cons_nth_drop_Suc Suc_diff_Suc less_le_trans take_Suc_Cons)
    show ?thesis
    proof (cases "p ! i = extsep")
      case False
      with True show ?thesis
        by (subst skip_leading_dots.simps) (simp add: sl all_dots_def)
    next
      case dot: True
      from "1.IH" [OF True] dot True "1.prems"
      have "skip_leading_dots p (Suc i) d =
              (if all_dots (take (d - Suc i) (drop (Suc i) p)) then (p, [])
               else (take d p, drop d p))"
        by simp
      with True dot show ?thesis
        by (subst skip_leading_dots.simps) (simp add: sl all_dots_def)
    qed
  qed
qed

lemma splitext_no_dot: "extsep \<notin> set p \<Longrightarrow> splitext pf p = (p, [])"
  using rfind_ge [of "sep pf" p]
  by (cases pf) (simp_all add: splitext_def rfind_def Let_def)

lemma splitext_sep_after_dot:
  assumes "\<exists>c\<in>set b. is_sep pf c" and "extsep \<notin> set b"
  shows "splitext pf (a @ extsep # b) = (a @ extsep # b, [])"
proof -
  from assms(1) obtain c where c: "c \<in> set b" "is_sep pf c" by blast
  have d: "rfind extsep (a @ extsep # b) = int (length a)"
    using assms(2) by (rule rfind_last)
  have "int (length a) < rfind c (a @ extsep # b)"
    using c(1) by (rule rfind_after)
  with c(2) d show ?thesis
    by (cases pf) (auto simp: splitext_def Let_def is_sep_def)
qed

lemma splitext_split:
  assumes "extsep \<notin> set b" and "\<forall>c\<in>set b. \<not> is_sep pf c"
  shows "splitext pf (a @ extsep # b) =
           (if all_dots (basename pf a) then (a @ extsep # b, []) else (a, extsep # b))"
proof -
  let ?p = "a @ extsep # b"
  let ?si = "\<lambda>s. case altsep pf of None \<Rightarrow> rfind (sep pf) s
                  | Some x \<Rightarrow> max (rfind (sep pf) s) (rfind x s)"
  have d: "rfind extsep ?p = int (length a)"
    using assms(1) by (rule rfind_last)
  have nd: "\<not> is_sep pf extsep"
    by (cases pf) (simp_all add: is_sep_def extsep_def backslash_def)
  have r: "rfind c ?p = rfind c a" if "is_sep pf c" for c
  proof -
    from that assms(2) nd have "c \<notin> set (extsep # b)" by auto
    then show ?thesis by (rule rfind_append_absent)
  qed
  have si: "?si ?p = ?si a"
    by (cases pf) (simp_all add: r is_sep_def)
  have lt: "?si a < int (length a)"
    by (cases pf) (simp_all add: rfind_less)
  have ge: "- 1 \<le> ?si a"
    by (cases pf) (simp_all add: rfind_ge le_max_iff_disj)
  let ?i = "nat (?si a + 1)"
  have i: "?i \<le> length a" using lt ge by simp
  have sl: "take (length a - ?i) (drop ?i ?p) = basename pf a"
    using i by (simp add: basename_drop)
  have "splitext pf ?p = skip_leading_dots ?p ?i (length a)"
    using lt by (simp add: splitext_def Let_def d si)
  also have "\<dots> = (if all_dots (take (length a - ?i) (drop ?i ?p)) then (?p, [])
                    else (take (length a) ?p, drop (length a) ?p))"
    using i by (intro skip_leading_dots_eq) simp_all
  finally have "splitext pf ?p = (if all_dots (basename pf a) then (?p, [])
                    else (take (length a) ?p, drop (length a) ?p))"
    unfolding sl .
  then show ?thesis
    by simp
qed

lemma lower_char_consts:
  "lower_char CHR ''.'' = CHR ''.''" "lower_char CHR ''/'' = CHR ''/''"
  "lower_char CHR 0x5C = CHR 0x5C"
  by (simp_all add: lower_char_def ascii_uppercase_def ascii_lowercase_def)

lemma lower_keeps_punctuation:
  "CHR ''.'' \<in> set e \<Longrightarrow> CHR ''.'' \<in> set (lower e)"
  "CHR ''/'' \<in> set e \<Longrightarrow> CHR ''/'' \<in> set (lower e)"
  "CHR 0x5C \<in> set e \<Longrightarrow> CHR 0x5C \<in> set (lower e)"
proof -
  have "c \<in> set e \<Longrightarrow> c \<in> set (lower e)"
    if c: "lower_char c = c" "c \<noteq> CHR 0xE2" "c \<noteq> CHR 0x84" "c \<noteq> CHR 0xAA"
      "c \<noteq> CHR 0xC4" "c \<noteq> CHR 0xB0" for c
  proof (induction e rule: lower.induct)
    case 1
    then show ?case by simp
  next
    case (2 d rest)
    note lower.simps [simp]
    show ?case
    proof (cases "d = CHR 0xE2 \<and> take 2 rest = [CHR 0x84, CHR 0xAA]")
      case True
      then have "rest = CHR 0x84 # CHR 0xAA # drop 2 rest"
        by (metis append_take_drop_id append_Cons append_Nil)
      with "2.prems" True c have "c \<in> set (drop 2 rest)"
        by (metis set_ConsD)
      with "2.IH"(1) [OF True] True show ?thesis
        by simp
    next
      case False
      show ?thesis
      proof (cases "d = CHR 0xC4 \<and> take 1 rest = [CHR 0xB0]")
        case True
        then have "rest = CHR 0xB0 # drop 1 rest"
          by (metis append_take_drop_id append_Cons append_Nil)
        with "2.prems" True c have "c \<in> set (drop 1 rest)"
          by (metis set_ConsD)
        with "2.IH"(2) [OF False True] False True show ?thesis
          by simp
      next
        case no: False
        from "2.prems" have "c = d \<or> c \<in> set rest" by auto
        with "2.IH"(3) [OF False no] False no c(1) show ?thesis
          by auto
      qed
    qed
  qed
  from this [of "CHR ''.''"] this [of "CHR ''/''"] this [of "CHR 0x5C"]
  show "CHR ''.'' \<in> set e \<Longrightarrow> CHR ''.'' \<in> set (lower e)"
    "CHR ''/'' \<in> set e \<Longrightarrow> CHR ''/'' \<in> set (lower e)"
    "CHR 0x5C \<in> set e \<Longrightarrow> CHR 0x5C \<in> set (lower e)"
    by (simp_all add: lower_char_consts)
qed

lemma video_name_chars:
  assumes "lower e \<in> set video_names"
  shows "extsep \<notin> set e" and "\<forall>c\<in>set e. \<not> is_sep pf c"
proof -
  have n: "CHR ''.'' \<notin> set (lower e) \<and> CHR ''/'' \<notin> set (lower e) \<and> CHR 0x5C \<notin> set (lower e)"
    using assms by (auto simp: video_names_def)
  note m = lower_keeps_punctuation
  show "extsep \<notin> set e"
    using n m(1) [of e] by (auto simp: extsep_def)
  show "\<forall>c\<in>set e. \<not> is_sep pf c"
    using n m(2) [of e] m(3) [of e]
    by (cases pf) (auto simp: is_sep_def backslash_def)
qed

lemma video_extensions_names: "x \<in> set video_extensions \<longleftrightarrow> (\<exists>n\<in>set video_names. x = extsep # n)"
  by (auto simp: video_extensions_def video_names_def extsep_def)

lemma lower_dot: "lower (extsep # e) = extsep # lower e"
  by (simp add: extsep_def lower_char_consts lower.simps)

lemma is_video_file_iff:
  "is_video_file pf p \<longleftrightarrow>
     (\<exists>stem e. p = stem @ extsep # e \<and> lower e \<in> set video_names
                \<and> \<not> all_dots (basename pf stem))"
proof
  assume v: "is_video_file pf p"
  then have ext: "lower (snd (splitext pf p)) \<in> set video_extensions"
    by (simp add: is_video_file_def)
  then have ne: "snd (splitext pf p) \<noteq> []"
    by (auto simp: video_extensions_def lower.simps)
  have "extsep \<in> set p"
  proof (rule ccontr)
    assume "extsep \<notin> set p"
    then have "splitext pf p = (p, [])" by (rule splitext_no_dot)
    with ne show False by simp
  qed
  then obtain a b where p: "p = a @ extsep # b" "extsep \<notin> set b"
    by (meson split_list_last)
  have ns: "\<forall>c\<in>set b. \<not> is_sep pf c"
  proof (rule ccontr)
    assume "\<not> (\<forall>c\<in>set b. \<not> is_sep pf c)"
    then have "\<exists>c\<in>set b. is_sep pf c" by blast
    then have "splitext pf (a @ extsep # b) = (a @ extsep # b, [])"
      using p(2) by (rule splitext_sep_after_dot)
    with ne p(1) show False by simp
  qed
  from splitext_split [OF p(2) ns, of a] ne p(1)
  have nad: "\<not> all_dots (basename pf a)" and s: "snd (splitext pf p) = extsep # b"
    by (auto split: if_splits)
  from ext s have "lower b \<in> set video_names"
    by (auto simp: lower_dot video_extensions_names)
  with p(1) nad show "\<exists>stem e. p = stem @ extsep # e \<and> lower e \<in> set video_names
                \<and> \<not> all_dots (basename pf stem)"
    by blast
next
  assume "\<exists>stem e. p = stem @ extsep # e \<and> lower e \<in> set video_names
                \<and> \<not> all_dots (basename pf stem)"
  then obtain stem e where p: "p = stem @ extsep # e" and e: "lower e \<in> set video_names"
    and nad: "\<not> all_dots (basename pf stem)"
    by blast
  from splitext_split [OF video_name_chars [OF e], of pf stem] nad p
  have "snd (splitext pf p) = extsep # e" by simp
  with e show "is_video_file pf p"
    by (auto simp: is_video_file_def lower_dot video_extensions_names)
qed

text \<open>
  Claim C9. \<open>is_video_file\<close> holds exactly when the path ends in a dot followed by
  one of the eight names, compared after lower-casing, where the extension is the one
  \<open>os.path.splitext\<close> assigns: the dot must be preceded, in the last component of
  the path, by a character other than a dot (a file named \<open>.mp4\<close> has no
  extension). Lower-casing is that of \<open>str.lower\<close>, under which the Kelvin sign is
  a \<open>k\<close>. This holds for both flavours of \<open>os.path\<close>. For every other path the
  worker takes the input itself as the audio path: no flag is read, nothing is
  extracted, no file is created and no event is put.
\<close>

theorem video_classification_by_extension:
  "(is_video_file pf p \<longleftrightarrow>
      (\<exists>stem e. p = stem @ extsep # e \<and> lower e \<in> set video_names
                 \<and> \<not> all_dots (basename pf stem)))
   \<and> (\<not> is_video_file (os_path w) input_path
        \<longrightarrow> select_audio w input_path st = (Next input_path, st))"
  using is_video_file_iff [of pf p] by (simp add: select_audio_def)

theorem video_classification_by_extension_witness:
  "is_video_file Posix ''x.tar.MkV''
   \<and> (\<exists>stem e. ''x.tar.MkV'' = stem @ extsep # e \<and> lower e \<in> set video_names
                 \<and> \<not> all_dots (basename Posix stem))
   \<and> is_video_file Windows kelvin_path
   \<and> (\<exists>stem e. kelvin_path = stem @ extsep # e \<and> lower e \<in> set video_names
                 \<and> \<not> all_dots (basename Windows stem))
   \<and> \<not> is_video_file (os_path calm_world) ''talk.mp3''
   \<and> select_audio calm_world ''talk.mp3'' before_loop = (Next ''talk.mp3'', before_loop)"
proof -
  have v: "is_video_file Posix ''x.tar.MkV''"
    by (simp add: path_defs)
  have a: "\<not> is_video_file (os_path calm_world) ''talk.mp3''"
    by (simp add: calm_world_def talk_mp3_is_audio)
  have k: "is_video_file Windows kelvin_path"
    by (simp add: path_defs kelvin_path_def)
  from video_classification_by_extension
    [of Posix "''x.tar.MkV''" calm_world "''talk.mp3''" before_loop]
    video_classification_by_extension
    [of Windows kelvin_path calm_world "''talk.mp3''" before_loop] v a k
  show ?thesis by blast
qed

lemma hidden_file_is_not_video:
  "\<not> is_video_file Posix ''/home/u/.mp4''" "\<not> is_video_file Windows ''clip.mp3''"
  "is_video_file Windows ''C:/v/clip.WebM''"
  by (simp_all add: path_defs)

section \<open>The controller\<close>

lemmas gui_defs =
  start_transcription_def stop_transcription_def transcription_finished_def handle_event_def
  update_status_def log_message_def showerror_def showinfo_def

lemma handle_event_keeps:
  "stop_flag (handle_event ev g) = stop_flag g"
  "threads_started (handle_event ev g) = threads_started g"
  by (cases ev; simp add: gui_defs)+

lemma apply_op_threads_mono: "threads_started g \<le> threads_started (apply_op op g)"
  by (cases op) (simp_all add: handle_event_keeps, simp_all add: gui_defs)

lemma apply_ops_threads_mono: "threads_started g \<le> threads_started (apply_ops ops g)"
  unfolding apply_ops_def
proof (induction ops arbitrary: g)
  case Nil
  show ?case by simp
next
  case (Cons op ops)
  from apply_op_threads_mono [of g op] Cons.IH [of "apply_op op g"]
  show ?case by simp
qed

lemma apply_op_flag:
  "stop_flag g \<Longrightarrow> stop_flag (apply_op op g)
     \<or> threads_started (apply_op op g) = Suc (threads_started g)"
  by (cases op) (simp_all add: handle_event_keeps, simp_all add: gui_defs)

lemma apply_ops_flag:
  "stop_flag g \<Longrightarrow> \<not> stop_flag (apply_ops ops g)
     \<Longrightarrow> threads_started g < threads_started (apply_ops ops g)"
proof (induction ops arbitrary: g)
  case Nil
  then show ?case by (simp add: apply_ops_def)
next
  case (Cons op ops)
  have unf: "apply_ops (op # ops) g = apply_ops ops (apply_op op g)"
    by (simp add: apply_ops_def)
  show ?case
  proof (cases "stop_flag (apply_op op g)")
    case True
    from Cons.IH [OF True] Cons.prems(2) apply_op_threads_mono [of g op]
    show ?thesis by (simp add: unf)
  next
    case False
    with apply_op_flag [OF Cons.prems(1), of op]
    have "threads_started (apply_op op g) = Suc (threads_started g)" by simp
    with apply_ops_threads_mono [of "apply_op op g" ops] show ?thesis
      by (simp add: unf)
  qed
qed

lemma stop_twice: "stop_transcription (stop_transcription g) = stop_transcription g"
  by (simp add: gui_defs)

lemma stop_many: "(stop_transcription ^^ Suc n) g = stop_transcription g"
  by (induction n) (simp_all add: stop_twice)

text \<open>
  Claim C8. \<open>stop_transcription\<close> is idempotent: any positive number of calls
  leaves the interface in the state one call leaves it in, with the flag set. It has
  no failing branch, shows no dialog, starts no thread and does not touch the
  record of the running job, so it can be called in any state. Once the flag is set
  it stays set under every sequence of operations of the interactive thread until a
  call of \<open>start_transcription\<close> starts a new worker: if the flag is found cleared,
  the number of threads started has grown. A call of \<open>start_transcription\<close> while a
  job is running changes nothing.
\<close>

theorem stop_idempotent_flag_monotone:
  "(stop_transcription ^^ Suc n) g = stop_transcription g
   \<and> stop_flag (stop_transcription g)
   \<and> dialogs (stop_transcription g) = dialogs g
   \<and> threads_started (stop_transcription g) = threads_started g
   \<and> is_transcribing (stop_transcription g) = is_transcribing g
   \<and> (is_transcribing g \<longrightarrow> stop_flag (start_transcription g) = stop_flag g)
   \<and> (stop_flag g \<and> \<not> stop_flag (apply_ops ops g)
        \<longrightarrow> threads_started g < threads_started (apply_ops ops g))"
  using stop_many [of n g] apply_ops_flag [of g ops]
  by (simp add: gui_defs)

theorem stop_idempotent_flag_monotone_witness:
  "(stop_transcription ^^ Suc 2) busy_gui = stop_transcription busy_gui
   \<and> stop_flag (stop_transcription busy_gui)
   \<and> is_transcribing busy_gui
   \<and> stop_flag (start_transcription (stop_transcription busy_gui))
   \<and> stop_flag (stop_transcription idle_gui)
   \<and> \<not> stop_flag (apply_ops [Handle (''log'', Some ''x''), Start] (stop_transcription idle_gui))
   \<and> threads_started (stop_transcription idle_gui)
       < threads_started (apply_ops [Handle (''log'', Some ''x''), Start]
                            (stop_transcription idle_gui))"
proof -
  have a: "is_transcribing (stop_transcription busy_gui)"
    by (simp add: gui_defs busy_gui_def idle_gui_def)
  have b: "\<not> stop_flag (apply_ops [Handle (''log'', Some ''x''), Start]
                          (stop_transcription idle_gui))"
    by (simp add: apply_ops_def gui_defs idle_gui_def audio_job_def)
  have c: "is_transcribing busy_gui"
    by (simp add: busy_gui_def idle_gui_def)
  from stop_idempotent_flag_monotone [of 2 busy_gui "[]"]
    stop_idempotent_flag_monotone [of 0 "stop_transcription busy_gui" "[]"]
    stop_idempotent_flag_monotone [of 0 idle_gui "[]"]
    stop_idempotent_flag_monotone
      [of 0 "stop_transcription idle_gui" "[Handle (''log'', Some ''x''), Start]"]
    a b c
  show ?thesis
    by simp
qed

text \<open>
  The claim C4 as stated fails where no job is active and no input file is selected:
  \<open>start_transcription\<close> then shows an error dialog and returns; it neither resets
  the flag nor starts a worker.
\<close>

theorem start_without_input_counterexample:
  "\<not> is_transcribing no_input_gui
   \<and> stop_flag no_input_gui
   \<and> stop_flag (start_transcription no_input_gui)
   \<and> \<not> is_transcribing (start_transcription no_input_gui)
   \<and> threads_started (start_transcription no_input_gui) = threads_started no_input_gui"
  by (simp add: gui_defs no_input_gui_def idle_gui_def audio_job_def)

text \<open>
  Claim C4, amended. A call of \<open>start_transcription\<close> while a job is active is
  rejected silently: the interface is unchanged, no dialog is shown and no second
  worker is started. When no job is active and both paths are non-empty, the call
  clears the flag, marks the job active, clears the log text, sets the status and
  the controls, and starts exactly one worker thread; its result is a function of
  the interface alone, the worker's events arrive later through the queue. When no
  job is active and a path is empty, the call shows one error dialog and changes
  nothing else.
\<close>

theorem start_guarded:
  "(is_transcribing g \<longrightarrow> start_transcription g = g)
   \<and> (\<not> is_transcribing g \<and> audio_file (state g) \<noteq> [] \<and> output_file (state g) \<noteq> []
        \<longrightarrow> start_transcription g =
              g\<lparr>stop_flag := False, is_transcribing := True,
                 threads_started := Suc (threads_started g),
                 start_button_enabled := False, stop_button_enabled := True,
                 progress_running := True, status_label := ''Initializing...'',
                 log_text := []\<rparr>)
   \<and> (\<not> is_transcribing g \<and> (audio_file (state g) = [] \<or> output_file (state g) = [])
        \<longrightarrow> start_transcription g =
              g\<lparr>dialogs := dialogs g @
                   [(''showerror'', ''Error'',
                     if audio_file (state g) = [] then ''Select audio or video file''
                     else ''Specify file for saving'')]\<rparr>)"
  by (simp add: gui_defs)

theorem start_guarded_witness:
  "is_transcribing busy_gui
   \<and> start_transcription busy_gui = busy_gui
   \<and> \<not> is_transcribing idle_gui
   \<and> audio_file (state idle_gui) \<noteq> [] \<and> output_file (state idle_gui) \<noteq> []
   \<and> threads_started (start_transcription idle_gui) = 1
   \<and> \<not> stop_flag (start_transcription idle_gui)
   \<and> is_transcribing (start_transcription idle_gui)
   \<and> audio_file (state no_input_gui) = []
   \<and> dialogs (start_transcription no_input_gui)
       = [(''showerror'', ''Error'', ''Select audio or video file'')]
   \<and> threads_started (start_transcription no_input_gui) = 0"
proof -
  have b: "is_transcribing busy_gui"
    by (simp add: busy_gui_def idle_gui_def)
  have i: "\<not> is_transcribing idle_gui" "audio_file (state idle_gui) \<noteq> []"
    "output_file (state idle_gui) \<noteq> []" "threads_started idle_gui = 0"
    by (simp_all add: idle_gui_def audio_job_def)
  have n: "\<not> is_transcribing no_input_gui" "audio_file (state no_input_gui) = []"
    "dialogs no_input_gui = []" "threads_started no_input_gui = 0"
    by (simp_all add: no_input_gui_def idle_gui_def audio_job_def)
  from start_guarded [of busy_gui] b have 1: "start_transcription busy_gui = busy_gui"
    by blast
  from start_guarded [of idle_gui] i
  have 2: "start_transcription idle_gui =
              idle_gui\<lparr>stop_flag := False, is_transcribing := True,
                 threads_started := Suc (threads_started idle_gui),
                 start_button_enabled := False, stop_button_enabled := True,
                 progress_running := True, status_label := ''Initializing...'',
                 log_text := []\<rparr>"
    by blast
  from start_guarded [of no_input_gui] n
  have 3: "start_transcription no_input_gui =
              no_input_gui\<lparr>dialogs := dialogs no_input_gui @
                   [(''showerror'', ''Error'',
                     if audio_file (state no_input_gui) = [] then ''Select audio or video file''
                     else ''Specify file for saving'')]\<rparr>"
    by blast
  show ?thesis
    unfolding 1 2 3 using b i n by simp
qed

section \<open>Model resolution\<close>

lemma available_base_path: "map_of AVAILABLE_MODELS ''base'' = Some base_path"
  by (simp add: AVAILABLE_MODELS_def base_path_def)

lemma huge_is_unknown: "map_of AVAILABLE_MODELS ''huge'' = None"
  by (simp add: AVAILABLE_MODELS_def)

lemma mapping_covers_models:
  "map_of AVAILABLE_MODELS name = Some path \<Longrightarrow> \<exists>repo. map_of HF_MODEL_MAPPING name = Some repo"
  by (auto simp: AVAILABLE_MODELS_def HF_MODEL_MAPPING_def split: if_splits)

lemma load_model_unknown:
  assumes "map_of AVAILABLE_MODELS name = None"
  shows "load_model w name st = construct_model w base_path (put (fallback_log name) st)"
  using assms
  by (simp add: load_model_def subscript_def and_then_def available_base_path fallback_log_def)

text \<open>
  Claim C7. For a model identifier that is not a key of the table, the
  model-loading stage puts the log line announcing the substitution and constructs
  the model from the path of \<open>base\<close>, once. The outcome of the stage is the outcome of
  that construction: the model of \<open>base\<close> when it succeeds, and otherwise the
  exception the construction raised. The \<open>KeyError\<close> of the failed lookup is
  consumed by the handler and never becomes the outcome, so it never reaches the
  outer handler that reports errors to the user.
\<close>

theorem unknown_model_falls_back_to_base:
  assumes "map_of AVAILABLE_MODELS name = None"
  shows "result_queue (snd (load_model w name st)) = result_queue st @ [fallback_log name]
       \<and> calls (snd (load_model w name st)) = calls st @ [CallWhisperModel base_path]
       \<and> fst (load_model w name st)
           = (case whisper_model w (model_loads st) base_path of
                None \<Rightarrow> Next base_path
              | Some e \<Rightarrow> Raise e)"
  by (simp add: load_model_unknown [OF assms] construct_model_def put_def called_def Let_def
        split: option.splits)

lemma unknown_model_events:
  "emitted calm_world unknown_model_job [] no_files =
     [(''status'', Some ''Loading model...''),
      (''log'', Some ''Loading model: huge''),
      fallback_log ''huge'',
      (''status'', Some ''Transcribing...''),
      (''log'', Some ''Starting transcription of file: talk.mp3''),
      (''log'', Some ''Detected language: en (probability: 0.98)''),
      (''log'', Some ''Approximate duration: 12.50 seconds''),
      (''log'', Some ''Transcription completed! Processed segments: 10''),
      (''log'', Some ''Result saved to: out.txt''),
      (''success'', Some ''Transcription completed successfully!''),
      (''finished'', None)]"
  by (simp add: worker_defs example_defs example_facts huge_is_unknown fallback_log_def
        Let_def show_nat.simps)

theorem unknown_model_falls_back_to_base_witness:
  "map_of AVAILABLE_MODELS ''huge'' = None
   \<and> result_queue (snd (load_model calm_world ''huge'' (job_start [] no_files)))
       = [fallback_log ''huge'']
   \<and> calls (snd (load_model calm_world ''huge'' (job_start [] no_files)))
       = [CallWhisperModel base_path]
   \<and> fst (load_model calm_world ''huge'' (job_start [] no_files)) = Next base_path
   \<and> fst (load_model nothing_downloaded ''huge'' (job_start [] no_files))
       = Raise invalid_repo_id
   \<and> fallback_log ''huge'' \<in> set (emitted calm_world unknown_model_job [] no_files)
   \<and> filter is_error (emitted calm_world unknown_model_job [] no_files) = []"
proof -
  have w: "whisper_model calm_world k p = None"
    "whisper_model nothing_downloaded k p = Some invalid_repo_id" for k p
    by (simp_all add: calm_world_def nothing_downloaded_def)
  have j: "result_queue (job_start [] no_files) = []" "calls (job_start [] no_files) = []"
    by (simp_all add: job_start_def)
  from unknown_model_falls_back_to_base [OF huge_is_unknown, of calm_world "job_start [] no_files"]
    unknown_model_falls_back_to_base
      [OF huge_is_unknown, of nothing_downloaded "job_start [] no_files"]
  show ?thesis
    by (simp add: w j huge_is_unknown unknown_model_events is_error_def fallback_log_def)
qed

section \<open>On-demand acquisition\<close>

lemma tiny_paths:
  "map_of AVAILABLE_MODELS ''tiny'' = Some tiny_path"
  by (simp add: AVAILABLE_MODELS_def tiny_path_def)

lemma load_model_known:
  assumes "map_of AVAILABLE_MODELS name = Some path" "map_of HF_MODEL_MAPPING name = Some repo"
  shows "load_model w name st =
     (let st1 = called (CallWhisperModel path) (st\<lparr>model_loads := Suc (model_loads st)\<rparr>)
      in case whisper_model w (model_loads st) path of
           None \<Rightarrow> (Next path, st1)
         | Some (KeyError m) \<Rightarrow>
             construct_model w base_path (put (fallback_log name) st1)
         | Some (HFValidationError m) \<Rightarrow>
             (let st2 = called (CallDownloadModel name repo path) (put (downloading_log name) st1)
              in case download_model w name repo path of
                   Some e \<Rightarrow> (Raise e, st2)
                 | None \<Rightarrow> construct_model w path (put (downloaded_log name) st2))
         | Some (OtherError m) \<Rightarrow> (Raise (OtherError m), st1))"
proof (cases "whisper_model w (model_loads st) path")
  case None
  with assms show ?thesis
    by (simp add: load_model_def subscript_def and_then_def construct_model_def Let_def)
next
  case (Some e)
  with assms show ?thesis
    by (cases e)
       (simp_all add: load_model_def subscript_def and_then_def construct_model_def Let_def
          call_download_model_def available_base_path fallback_log_def downloading_log_def
          downloaded_log_def split: option.splits)
qed

text \<open>
  Claim C5, amended. Let the identifier be a key of the table; then it is a key of
  the repository mapping too. If the first construction of the model fails with
  \<open>HFValidationError\<close>, the stage logs that the model is being downloaded, calls
  \<open>download_model\<close> with the identifier, its repository and the table's local path,
  and, when that returns, logs the success and constructs the model once more from
  the same path; the outcome of the stage is the exception of the acquisition if it
  raised, and otherwise the outcome of the second construction, whatever exception
  that may raise. If the first construction fails with an exception that is neither
  \<open>HFValidationError\<close> nor \<open>KeyError\<close>, that exception is the outcome and nothing is
  logged or acquired. Every exception that is the outcome of the stage ends the
  \<open>try\<close> body there: what follows the stage is not run.
\<close>

theorem invalid_artifact_triggers_one_download:
  assumes "map_of AVAILABLE_MODELS name = Some path"
  shows "\<exists>repo. map_of HF_MODEL_MAPPING name = Some repo
       \<and> (whisper_model w (model_loads st) path = Some (HFValidationError m) \<longrightarrow>
            result_queue (snd (load_model w name st))
              = result_queue st @ [downloading_log name]
                @ (if download_model w name repo path = None then [downloaded_log name] else [])
          \<and> calls (snd (load_model w name st))
              = calls st @ [CallWhisperModel path, CallDownloadModel name repo path]
                @ (if download_model w name repo path = None then [CallWhisperModel path] else [])
          \<and> fst (load_model w name st)
              = (case download_model w name repo path of
                   Some e \<Rightarrow> Raise e
                 | None \<Rightarrow> (case whisper_model w (Suc (model_loads st)) path of
                              None \<Rightarrow> Next path
                            | Some e \<Rightarrow> Raise e)))
       \<and> (whisper_model w (model_loads st) path = Some (OtherError m) \<longrightarrow>
            fst (load_model w name st) = Raise (OtherError m)
          \<and> result_queue (snd (load_model w name st)) = result_queue st
          \<and> calls (snd (load_model w name st)) = calls st @ [CallWhisperModel path])
       \<and> (whisper_model w (model_loads st) path = None \<longrightarrow>
            fst (load_model w name st) = Next path
          \<and> result_queue (snd (load_model w name st)) = result_queue st
          \<and> calls (snd (load_model w name st)) = calls st @ [CallWhisperModel path])
       \<and> (fst (load_model w name st) = Raise e \<longrightarrow>
            and_then (load_model w name st) k = (Raise e, snd (load_model w name st)))"
proof -
  from mapping_covers_models [OF assms] obtain repo where
    repo: "map_of HF_MODEL_MAPPING name = Some repo" by blast
  note lm = load_model_known [OF assms repo, of w st]
  have ab: "fst (load_model w name st) = Raise e \<longrightarrow>
            and_then (load_model w name st) k = (Raise e, snd (load_model w name st))"
    by (cases "load_model w name st") (simp add: and_then_def)
  have h1: "(whisper_model w (model_loads st) path = Some (HFValidationError m) \<longrightarrow>
            result_queue (snd (load_model w name st))
              = result_queue st @ [downloading_log name]
                @ (if download_model w name repo path = None then [downloaded_log name] else [])
          \<and> calls (snd (load_model w name st))
              = calls st @ [CallWhisperModel path, CallDownloadModel name repo path]
                @ (if download_model w name repo path = None then [CallWhisperModel path] else [])
          \<and> fst (load_model w name st)
              = (case download_model w name repo path of
                   Some e \<Rightarrow> Raise e
                 | None \<Rightarrow> (case whisper_model w (Suc (model_loads st)) path of
                              None \<Rightarrow> Next path
                            | Some e \<Rightarrow> Raise e)))"
    by (simp add: lm construct_model_def put_def called_def Let_def split: option.splits)
  have h2: "(whisper_model w (model_loads st) path = Some (OtherError m) \<longrightarrow>
            fst (load_model w name st) = Raise (OtherError m)
          \<and> result_queue (snd (load_model w name st)) = result_queue st
          \<and> calls (snd (load_model w name st)) = calls st @ [CallWhisperModel path])"
    by (simp add: lm called_def Let_def)
  have h3: "(whisper_model w (model_loads st) path = None \<longrightarrow>
            fst (load_model w name st) = Next path
          \<and> result_queue (snd (load_model w name st)) = result_queue st
          \<and> calls (snd (load_model w name st)) = calls st @ [CallWhisperModel path])"
    by (simp add: lm called_def Let_def)
  show ?thesis
    by (intro exI [of _ repo] conjI repo h1 h2 h3 ab)
qed

lemma available_huge: "map_of AVAILABLE_MODELS ''huge'' = None"
  by (simp add: AVAILABLE_MODELS_def)

lemma retry_fails_run:
  "calls (transcription_worker nothing_downloaded audio_job [] no_files) =
     [CallWhisperModel tiny_path,
      CallDownloadModel ''tiny'' ''Systran/faster-whisper-tiny'' tiny_path,
      CallWhisperModel tiny_path]"
  "emitted nothing_downloaded audio_job [] no_files =
     [(''status'', Some ''Loading model...''),
      (''log'', Some ''Loading model: tiny''),
      downloading_log ''tiny'',
      downloaded_log ''tiny'',
      (''error'', Some ''An error occurred: Repo id must use alphanumeric chars''),
      (''log'', Some ''ERROR: An error occurred: Repo id must use alphanumeric chars''),
      (''finished'', None)]"
  by (simp_all add: worker_defs example_defs example_facts tiny_path_def downloading_log_def
        downloaded_log_def Let_def)

lemma fallback_fails_run:
  "calls (transcription_worker nothing_downloaded unknown_model_job [] no_files) =
     [CallWhisperModel base_path]"
  "emitted nothing_downloaded unknown_model_job [] no_files =
     [(''status'', Some ''Loading model...''),
      (''log'', Some ''Loading model: huge''),
      fallback_log ''huge'',
      (''error'', Some ''An error occurred: Repo id must use alphanumeric chars''),
      (''log'', Some ''ERROR: An error occurred: Repo id must use alphanumeric chars''),
      (''finished'', None)]"
  by (simp_all add: worker_defs example_defs example_facts available_huge base_path_def
        fallback_log_def Let_def)

lemma loader_key_error_run:
  "calls (transcription_worker loader_key_error audio_job [] no_files) =
     [CallWhisperModel tiny_path, CallWhisperModel base_path,
      CallTranscribe base_path ''talk.mp3'' None, CallOpenWrite ''out.txt'']"
  "emitted loader_key_error audio_job [] no_files =
     [(''status'', Some ''Loading model...''),
      (''log'', Some ''Loading model: tiny''),
      fallback_log ''tiny'',
      (''status'', Some ''Transcribing...''),
      (''log'', Some ''Starting transcription of file: talk.mp3''),
      (''log'', Some ''Detected language: en (probability: 0.98)''),
      (''log'', Some ''Approximate duration: 12.50 seconds''),
      (''log'', Some ''Transcription completed! Processed segments: 10''),
      (''log'', Some ''Result saved to: out.txt''),
      (''success'', Some ''Transcription completed successfully!''),
      (''finished'', None)]"
  by (simp_all add: worker_defs example_defs example_facts tiny_path_def base_path_def
        fallback_log_def Let_def show_nat.simps)

text \<open>
  The claim C5 as stated fails in three ways. When the load retried after the
  acquisition fails with the same validation error, no further acquisition is made
  and the failure is reported as the error of the job. When the identifier is not
  in the table and loading \<open>base\<close> fails with the validation error, no acquisition
  is made at all: the failure is raised inside the \<open>KeyError\<close> handler, which the
  sibling handler does not cover. And a \<open>KeyError\<close> raised by the first load itself
  is taken for a missing table entry: the job goes on with \<open>base\<close> instead of
  being aborted.
\<close>

theorem acquisition_counterexample:
  "whisper_model nothing_downloaded 1 tiny_path = Some invalid_repo_id
   \<and> calls (transcription_worker nothing_downloaded audio_job [] no_files) =
       [CallWhisperModel tiny_path,
        CallDownloadModel ''tiny'' ''Systran/faster-whisper-tiny'' tiny_path,
        CallWhisperModel tiny_path]
   \<and> filter is_error (emitted nothing_downloaded audio_job [] no_files) =
       [(''error'', Some (''An error occurred: '' @ str_exn invalid_repo_id))]
   \<and> map_of AVAILABLE_MODELS ''huge'' = None
   \<and> whisper_model nothing_downloaded 0 base_path = Some invalid_repo_id
   \<and> calls (transcription_worker nothing_downloaded unknown_model_job [] no_files) =
       [CallWhisperModel base_path]
   \<and> filter is_error (emitted nothing_downloaded unknown_model_job [] no_files) =
       [(''error'', Some (''An error occurred: '' @ str_exn invalid_repo_id))]
   \<and> whisper_model loader_key_error 0 tiny_path = Some (KeyError ''vocab'')
   \<and> filter is_error (emitted loader_key_error audio_job [] no_files) = []
   \<and> calls (transcription_worker loader_key_error audio_job [] no_files) =
       [CallWhisperModel tiny_path, CallWhisperModel base_path,
        CallTranscribe base_path ''talk.mp3'' None, CallOpenWrite ''out.txt'']"
  unfolding retry_fails_run fallback_fails_run loader_key_error_run
  by (simp add: is_error_def downloading_log_def downloaded_log_def fallback_log_def
        invalid_repo_id_def available_huge nothing_downloaded_def loader_key_error_def
        calm_world_def)

theorem invalid_artifact_triggers_one_download_witness:
  "map_of AVAILABLE_MODELS ''tiny'' = Some tiny_path
   \<and> whisper_model first_load_invalid (model_loads (job_start [] no_files)) tiny_path
       = Some (HFValidationError ''Repo id must use alphanumeric chars'')
   \<and> result_queue (snd (load_model first_load_invalid ''tiny'' (job_start [] no_files)))
       = [downloading_log ''tiny'', downloaded_log ''tiny'']
   \<and> calls (snd (load_model first_load_invalid ''tiny'' (job_start [] no_files)))
       = [CallWhisperModel tiny_path,
          CallDownloadModel ''tiny'' ''Systran/faster-whisper-tiny'' tiny_path,
          CallWhisperModel tiny_path]
   \<and> fst (load_model first_load_invalid ''tiny'' (job_start [] no_files)) = Next tiny_path"
proof -
  have w0: "whisper_model first_load_invalid (model_loads (job_start [] no_files)) tiny_path
       = Some (HFValidationError ''Repo id must use alphanumeric chars'')"
    and w1: "whisper_model first_load_invalid (Suc (model_loads (job_start [] no_files))) tiny_path
       = None"
    and d: "download_model first_load_invalid n r p = None" for n r p
    by (simp_all add: first_load_invalid_def calm_world_def invalid_repo_id_def job_start_def)
  have j: "result_queue (job_start [] no_files) = []" "calls (job_start [] no_files) = []"
    by (simp_all add: job_start_def)
  from invalid_artifact_triggers_one_download
    [OF tiny_paths, of first_load_invalid "job_start [] no_files"
       "''Repo id must use alphanumeric chars''"]
  obtain repo where repo: "map_of HF_MODEL_MAPPING ''tiny'' = Some repo"
    and h: "whisper_model first_load_invalid (model_loads (job_start [] no_files)) tiny_path
              = Some (HFValidationError ''Repo id must use alphanumeric chars'') \<longrightarrow>
            result_queue (snd (load_model first_load_invalid ''tiny'' (job_start [] no_files)))
              = result_queue (job_start [] no_files) @ [downloading_log ''tiny'']
                @ (if download_model first_load_invalid ''tiny'' repo tiny_path = None
                   then [downloaded_log ''tiny''] else [])
          \<and> calls (snd (load_model first_load_invalid ''tiny'' (job_start [] no_files)))
              = calls (job_start [] no_files)
                @ [CallWhisperModel tiny_path, CallDownloadModel ''tiny'' repo tiny_path]
                @ (if download_model first_load_invalid ''tiny'' repo tiny_path = None
                   then [CallWhisperModel tiny_path] else [])
          \<and> fst (load_model first_load_invalid ''tiny'' (job_start [] no_files))
              = (case download_model first_load_invalid ''tiny'' repo tiny_path of
                   Some e \<Rightarrow> Raise e
                 | None \<Rightarrow>
                     (case whisper_model first_load_invalid
                             (Suc (model_loads (job_start [] no_files))) tiny_path of
                        None \<Rightarrow> Next tiny_path
                      | Some e \<Rightarrow> Raise e))"
    by blast
  from repo have r: "repo = ''Systran/faster-whisper-tiny''"
    by (simp add: mapping_tiny)
  from h w0 show ?thesis
    unfolding r by (simp add: d w1 j tiny_paths)
qed

section \<open>The temporary audio file\<close>









end
